theory Spec2Isabelle
  imports Main "HOL-Library.Signed_Division"
begin

section \<open>The board (package game, board file)\<close>

text \<open>
  Constants, the player enumeration and the board structure.  The Go grid is a fixed
  15 by 15 array; it is modelled as a total function on integer indices, and every
  place where the source indexes it without a guard carries an explicit bounds test
  whose failure is the runtime panic \<open>IndexOutOfRange\<close>.
\<close>

definition BoardSize :: int where
  "BoardSize = 15"

definition WinCondition :: int where
  "WinCondition = 5"

datatype Player = Empty | Black | White

record Board =
  Grid :: "int \<Rightarrow> int \<Rightarrow> Player"
  CurrentTurn :: Player
  MoveHistory :: "(int \<times> int) list"
  GameFinished :: bool

text \<open>The four values built with \<open>errors.New\<close>, and the two runtime panics.\<close>

datatype error = OutOfBounds | CellOccupied | GameAlreadyFinished | NoMovesToUndo

datatype panic = IndexOutOfRange | InvalidIntnArgument

definition NewBoard :: Board where
  "NewBoard = \<lparr>Grid = (\<lambda>r c. Empty), CurrentTurn = Black, MoveHistory = [],
     GameFinished = False\<rparr>"

definition isValidPosition :: "int \<Rightarrow> int \<Rightarrow> bool" where
  "isValidPosition row col \<longleftrightarrow> row \<ge> 0 \<and> row < BoardSize \<and> col \<ge> 0 \<and> col < BoardSize"

definition nextPlayer :: "Board \<Rightarrow> Player" where
  "nextPlayer b = (if CurrentTurn b = Black then White else Black)"

text \<open>The assignment \<open>Grid[row][col] = p\<close>.\<close>

definition setCell :: "(int \<Rightarrow> int \<Rightarrow> Player) \<Rightarrow> int \<Rightarrow> int \<Rightarrow> Player \<Rightarrow> (int \<Rightarrow> int \<Rightarrow> Player)" where
  "setCell g row col p = g(row := (g row)(col := p))"

text \<open>The four axis vectors: vertical, horizontal, diagonal, anti-diagonal.\<close>

definition directions :: "(int \<times> int) list" where
  "directions = [(1, 0), (0, 1), (1, 1), (1, -1)]"

text \<open>
  One counting loop of \<open>CheckWin\<close>: the steps \<open>i\<close> still to visit, leaving at the
  first cell that is off the board or holds another value (the \<open>break\<close>).  The
  backward loop is the same walk along the negated vector.
\<close>

fun countLine :: "(int \<Rightarrow> int \<Rightarrow> Player) \<Rightarrow> Player \<Rightarrow> int \<Rightarrow> int \<Rightarrow> int \<Rightarrow> int \<Rightarrow> int list \<Rightarrow> int \<Rightarrow> int" where
  "countLine g player row col dr dc [] count = count"
| "countLine g player row col dr dc (i # steps) count =
     (let r = row + dr * i; c = col + dc * i
      in if \<not> isValidPosition r c \<or> g r c \<noteq> player then count
         else countLine g player row col dr dc steps (count + 1))"

fun checkDirs :: "(int \<Rightarrow> int \<Rightarrow> Player) \<Rightarrow> Player \<Rightarrow> int \<Rightarrow> int \<Rightarrow> (int \<times> int) list \<Rightarrow> bool" where
  "checkDirs g player row col [] = False"
| "checkDirs g player row col (dir # dirs) =
     (let count = countLine g player row col (fst dir) (snd dir) [1 .. WinCondition - 1] 1;
          count = countLine g player row col (- fst dir) (- snd dir) [1 .. WinCondition - 1] count
      in if count \<ge> WinCondition then True else checkDirs g player row col dirs)"

definition CheckWin :: "Board \<Rightarrow> int \<Rightarrow> int \<Rightarrow> panic + bool" where
  "CheckWin b row col =
     (if \<not> isValidPosition row col then Inl IndexOutOfRange
      else Inr (checkDirs (Grid b) (Grid b row col) row col directions))"

text \<open>
  \<open>PlaceStone\<close> and \<open>Undo\<close> mutate the board and return an error value or nil.  The
  model returns the board as the call leaves it together with the returned error
  (\<open>None\<close> for nil); \<open>Inl\<close> is a runtime panic.
\<close>

definition PlaceStone :: "Board \<Rightarrow> int \<Rightarrow> int \<Rightarrow> panic + (Board \<times> error option)" where
  "PlaceStone b row col =
     (if row < 0 \<or> row \<ge> BoardSize \<or> col < 0 \<or> col \<ge> BoardSize then Inr (b, Some OutOfBounds)
      else if Grid b row col \<noteq> Empty then Inr (b, Some CellOccupied)
      else if GameFinished b then Inr (b, Some GameAlreadyFinished)
      else
        let b1 = b\<lparr>Grid := setCell (Grid b) row col (CurrentTurn b)\<rparr>;
            b2 = b1\<lparr>MoveHistory := MoveHistory b1 @ [(row, col)]\<rparr>
        in case CheckWin b2 row col of
             Inl p \<Rightarrow> Inl p
           | Inr won \<Rightarrow>
               if won then Inr (b2\<lparr>GameFinished := True\<rparr>, None)
               else Inr (b2\<lparr>CurrentTurn := nextPlayer b2\<rparr>, None))"

definition Undo :: "Board \<Rightarrow> panic + (Board \<times> error option)" where
  "Undo b =
     (if length (MoveHistory b) = 0 then Inr (b, Some NoMovesToUndo)
      else
        let lastMove = last (MoveHistory b)
        in if \<not> isValidPosition (fst lastMove) (snd lastMove) then Inl IndexOutOfRange
           else
             let b1 = b\<lparr>Grid := setCell (Grid b) (fst lastMove) (snd lastMove) Empty\<rparr>;
                 b2 = b1\<lparr>MoveHistory := butlast (MoveHistory b1)\<rparr>;
                 b3 = b2\<lparr>CurrentTurn := nextPlayer b2\<rparr>
             in Inr (b3\<lparr>GameFinished := False\<rparr>, None))"

definition GetCurrentPlayer :: "Board \<Rightarrow> Player" where
  "GetCurrentPlayer b = CurrentTurn b"

definition IsGameFinished :: "Board \<Rightarrow> bool" where
  "IsGameFinished b = GameFinished b"

text \<open>
  The length of the contiguous run of cells holding \<open>player\<close> that starts at the
  neighbour of \<open>(row, col)\<close> along \<open>(dr, dc)\<close> and stops at the first cell off the board
  or holding another value.  This is the notion used in the description of the win
  test; it is not bounded by the win length.  A run on the board has fewer than
  \<open>BoardSize\<close> cells, which is the number of steps given to it below.
\<close>

fun runLength :: "nat \<Rightarrow> (int \<Rightarrow> int \<Rightarrow> Player) \<Rightarrow> Player \<Rightarrow> int \<Rightarrow> int \<Rightarrow> int \<Rightarrow> int \<Rightarrow> nat" where
  "runLength 0 g player row col dr dc = 0"
| "runLength (Suc n) g player row col dr dc =
     (if isValidPosition (row + dr) (col + dc) \<and> g (row + dr) (col + dc) = player
      then Suc (runLength n g player (row + dr) (col + dc) dr dc) else 0)"

definition runThrough :: "(int \<Rightarrow> int \<Rightarrow> Player) \<Rightarrow> int \<Rightarrow> int \<Rightarrow> int \<times> int \<Rightarrow> nat" where
  "runThrough g row col dir =
     1 + runLength (nat BoardSize) g (g row col) row col (fst dir) (snd dir)
       + runLength (nat BoardSize) g (g row col) row col (- fst dir) (- snd dir)"

section \<open>The agent (package game, ai.go)\<close>

datatype Difficulty = Easy | Medium | Hard

record AI =
  player :: Player
  difficulty :: Difficulty

definition NewAI :: "Player \<Rightarrow> Difficulty \<Rightarrow> AI" where
  "NewAI p d = \<lparr>player = p, difficulty = d\<rparr>"

definition getOpponent :: "AI \<Rightarrow> Player" where
  "getOpponent ai = (if player ai = Black then White else Black)"

text \<open>
  The nested loops \<open>for i := lo; i <= hi\<close>, \<open>for j := lo'; j <= hi'\<close> visit the cells
  of a rectangle row by row; \<open>allCells\<close> is the whole board.
\<close>

definition cellsIn :: "int \<Rightarrow> int \<Rightarrow> int \<Rightarrow> int \<Rightarrow> (int \<times> int) list" where
  "cellsIn minRow maxRow minCol maxCol =
     concat (map (\<lambda>i. map (\<lambda>j. (i, j)) [minCol .. maxCol]) [minRow .. maxRow])"

definition allCells :: "(int \<times> int) list" where
  "allCells = cellsIn 0 (BoardSize - 1) 0 (BoardSize - 1)"

text \<open>Sequencing of calls that may panic: a panic ends the computation.\<close>

definition bindP :: "panic + 'a \<Rightarrow> ('a \<Rightarrow> panic + 'b) \<Rightarrow> panic + 'b" where
  "bindP m f = (case m of Inl p \<Rightarrow> Inl p | Inr x \<Rightarrow> f x)"

subsection \<open>Shape tests\<close>

text \<open>
  The walk of \<open>hasOpenFour\<close> and \<open>hasOpenThree\<close> along one direction, carrying
  \<open>(count, space)\<close>: it stops off the board, counts a cell of the player and goes on,
  counts one empty cell and stops, or stops at the other colour.
\<close>

fun openWalk :: "(int \<Rightarrow> int \<Rightarrow> Player) \<Rightarrow> Player \<Rightarrow> int \<Rightarrow> int \<Rightarrow> int \<Rightarrow> int \<Rightarrow> int list \<Rightarrow> int \<times> int \<Rightarrow> int \<times> int" where
  "openWalk g who row col dr dc [] (count, space) = (count, space)"
| "openWalk g who row col dr dc (i # steps) (count, space) =
     (let r = row + dr * i; c = col + dc * i
      in if \<not> isValidPosition r c then (count, space)
         else if g r c = who then openWalk g who row col dr dc steps (count + 1, space)
         else if g r c = Empty then (count, space + 1)
         else (count, space))"

text \<open>The test made for one direction inside \<open>hasOpenFour\<close>.\<close>

definition openFourAxis :: "(int \<Rightarrow> int \<Rightarrow> Player) \<Rightarrow> Player \<Rightarrow> int \<Rightarrow> int \<Rightarrow> int \<times> int \<Rightarrow> bool" where
  "openFourAxis g who row col dir =
     (let cs = openWalk g who row col (fst dir) (snd dir) [1 .. 4] (1, 0);
          cs = openWalk g who row col (- fst dir) (- snd dir) [1 .. 4] cs
      in fst cs = 4 \<and> snd cs = 2)"

fun openFourDirs :: "(int \<Rightarrow> int \<Rightarrow> Player) \<Rightarrow> Player \<Rightarrow> int \<Rightarrow> int \<Rightarrow> (int \<times> int) list \<Rightarrow> bool" where
  "openFourDirs g who row col [] = False"
| "openFourDirs g who row col (dir # dirs) =
     (if openFourAxis g who row col dir then True else openFourDirs g who row col dirs)"

definition hasOpenFour :: "Board \<Rightarrow> int \<Rightarrow> int \<Rightarrow> panic + bool" where
  "hasOpenFour b row col =
     (if \<not> isValidPosition row col then Inl IndexOutOfRange
      else Inr (openFourDirs (Grid b) (Grid b row col) row col directions))"

text \<open>The test made for one direction inside \<open>hasOpenThree\<close>.\<close>

definition openThreeAxis :: "(int \<Rightarrow> int \<Rightarrow> Player) \<Rightarrow> Player \<Rightarrow> int \<Rightarrow> int \<Rightarrow> int \<times> int \<Rightarrow> bool" where
  "openThreeAxis g who row col dir =
     (let cs = openWalk g who row col (fst dir) (snd dir) [1 .. 3] (1, 0);
          cs = openWalk g who row col (- fst dir) (- snd dir) [1 .. 3] cs
      in fst cs = 3 \<and> snd cs = 2)"

fun openThreeDirs :: "(int \<Rightarrow> int \<Rightarrow> Player) \<Rightarrow> Player \<Rightarrow> int \<Rightarrow> int \<Rightarrow> (int \<times> int) list \<Rightarrow> bool" where
  "openThreeDirs g who row col [] = False"
| "openThreeDirs g who row col (dir # dirs) =
     (if openThreeAxis g who row col dir then True else openThreeDirs g who row col dirs)"

definition hasOpenThree :: "Board \<Rightarrow> int \<Rightarrow> int \<Rightarrow> panic + bool" where
  "hasOpenThree b row col =
     (if \<not> isValidPosition row col then Inl IndexOutOfRange
      else Inr (openThreeDirs (Grid b) (Grid b row col) row col directions))"

text \<open>
  The walk of \<open>hasDoubleThree\<close>, carrying \<open>(count, space, blocked)\<close>: the edge of the
  board and a stone of the other colour are counted as blocked.
\<close>

fun doubleThreeWalk :: "(int \<Rightarrow> int \<Rightarrow> Player) \<Rightarrow> Player \<Rightarrow> int \<Rightarrow> int \<Rightarrow> int \<Rightarrow> int \<Rightarrow> int list \<Rightarrow> int \<times> int \<times> int \<Rightarrow> int \<times> int \<times> int" where
  "doubleThreeWalk g who row col dr dc [] (count, space, blocked) = (count, space, blocked)"
| "doubleThreeWalk g who row col dr dc (i # steps) (count, space, blocked) =
     (let r = row + dr * i; c = col + dc * i
      in if \<not> isValidPosition r c then (count, space, blocked + 1)
         else if g r c = who
           then doubleThreeWalk g who row col dr dc steps (count + 1, space, blocked)
         else if g r c = Empty then (count, space + 1, blocked)
         else (count, space, blocked + 1))"

text \<open>The test made for one direction inside \<open>hasDoubleThree\<close>.\<close>

definition doubleThreeAxis :: "(int \<Rightarrow> int \<Rightarrow> Player) \<Rightarrow> Player \<Rightarrow> int \<Rightarrow> int \<Rightarrow> int \<times> int \<Rightarrow> bool" where
  "doubleThreeAxis g who row col dir =
     (let csb = doubleThreeWalk g who row col (fst dir) (snd dir) [1 .. 3] (1, 0, 0);
          csb = doubleThreeWalk g who row col (- fst dir) (- snd dir) [1 .. 3] csb
      in fst csb = 3 \<and> fst (snd csb) = 2 \<and> snd (snd csb) = 0)"

fun doubleThreeDirs :: "(int \<Rightarrow> int \<Rightarrow> Player) \<Rightarrow> Player \<Rightarrow> int \<Rightarrow> int \<Rightarrow> (int \<times> int) list \<Rightarrow> int \<Rightarrow> int" where
  "doubleThreeDirs g who row col [] threeCount = threeCount"
| "doubleThreeDirs g who row col (dir # dirs) threeCount =
     doubleThreeDirs g who row col dirs
       (if doubleThreeAxis g who row col dir then threeCount + 1 else threeCount)"

definition hasDoubleThree :: "Board \<Rightarrow> int \<Rightarrow> int \<Rightarrow> panic + bool" where
  "hasDoubleThree b row col =
     (if \<not> isValidPosition row col then Inl IndexOutOfRange
      else Inr (doubleThreeDirs (Grid b) (Grid b row col) row col directions 0 \<ge> 2))"

subsection \<open>Scans with a speculative stone\<close>

text \<open>
  \<open>findWinningMove\<close>, \<open>findOpenFourMove\<close>, \<open>findOpenThreeMove\<close> and
  \<open>findAdvancedThreatMove\<close> are the same loop around different tests: on each empty
  cell in row-major order write the player's stone, run the test on the board, write
  \<open>Empty\<close> back, and return the first cell whose test holds, \<open>(-1, -1)\<close> if none.
\<close>

fun speculativeScan :: "(Board \<Rightarrow> int \<Rightarrow> int \<Rightarrow> panic + bool) \<Rightarrow> Board \<Rightarrow> Player \<Rightarrow> (int \<times> int) list \<Rightarrow> panic + (Board \<times> (int \<times> int))" where
  "speculativeScan test b p [] = Inr (b, (-1, -1))"
| "speculativeScan test b p ((i, j) # cells) =
     (if Grid b i j \<noteq> Empty then speculativeScan test b p cells
      else
        let b1 = b\<lparr>Grid := setCell (Grid b) i j p\<rparr>
        in case test b1 i j of
             Inl e \<Rightarrow> Inl e
           | Inr found \<Rightarrow>
               if found then Inr (b1\<lparr>Grid := setCell (Grid b1) i j Empty\<rparr>, (i, j))
               else speculativeScan test (b1\<lparr>Grid := setCell (Grid b1) i j Empty\<rparr>) p cells)"

definition findWinningMove :: "Board \<Rightarrow> Player \<Rightarrow> panic + (Board \<times> (int \<times> int))" where
  "findWinningMove b p = speculativeScan CheckWin b p allCells"

definition findOpenFourMove :: "Board \<Rightarrow> Player \<Rightarrow> panic + (Board \<times> (int \<times> int))" where
  "findOpenFourMove b p = speculativeScan hasOpenFour b p allCells"

definition findOpenThreeMove :: "Board \<Rightarrow> Player \<Rightarrow> panic + (Board \<times> (int \<times> int))" where
  "findOpenThreeMove b p = speculativeScan hasOpenThree b p allCells"

text \<open>The test of \<open>findAdvancedThreatMove\<close>: an open four, and if there is none a double three.\<close>

definition advancedThreat :: "Board \<Rightarrow> int \<Rightarrow> int \<Rightarrow> panic + bool" where
  "advancedThreat b i j =
     bindP (hasOpenFour b i j) (\<lambda>four. if four then Inr True else hasDoubleThree b i j)"

definition findAdvancedThreatMove :: "Board \<Rightarrow> Player \<Rightarrow> panic + (Board \<times> (int \<times> int))" where
  "findAdvancedThreatMove b p = speculativeScan advancedThreat b p allCells"

subsection \<open>The threat scan\<close>

text \<open>One walk of \<open>findThreatsMove\<close>, carrying \<open>(count, blocked)\<close>.\<close>

fun threatWalk :: "(int \<Rightarrow> int \<Rightarrow> Player) \<Rightarrow> Player \<Rightarrow> int \<Rightarrow> int \<Rightarrow> int \<Rightarrow> int \<Rightarrow> int list \<Rightarrow> int \<times> int \<Rightarrow> int \<times> int" where
  "threatWalk g opponent i j dr dc [] (count, blocked) = (count, blocked)"
| "threatWalk g opponent i j dr dc (k # steps) (count, blocked) =
     (let r = i + dr * k; c = j + dc * k
      in if \<not> isValidPosition r c then (count, blocked + 1)
         else if g r c = opponent then threatWalk g opponent i j dr dc steps (count + 1, blocked)
         else if g r c \<noteq> Empty then (count, blocked + 1)
         else (count, blocked))"

fun threatDirs :: "(int \<Rightarrow> int \<Rightarrow> Player) \<Rightarrow> Player \<Rightarrow> int \<Rightarrow> int \<Rightarrow> (int \<times> int) list \<Rightarrow> bool" where
  "threatDirs g opponent i j [] = False"
| "threatDirs g opponent i j (dir # dirs) =
     (let cb = threatWalk g opponent i j (fst dir) (snd dir) [1 .. 3] (0, 0);
          cb = threatWalk g opponent i j (- fst dir) (- snd dir) [1 .. 3] cb
      in if fst cb \<ge> 2 \<and> snd cb < 2 then True else threatDirs g opponent i j dirs)"

fun threatCells :: "(int \<Rightarrow> int \<Rightarrow> Player) \<Rightarrow> Player \<Rightarrow> (int \<times> int) list \<Rightarrow> int \<times> int" where
  "threatCells g opponent [] = (-1, -1)"
| "threatCells g opponent ((i, j) # cells) =
     (if g i j \<noteq> Empty then threatCells g opponent cells
      else if threatDirs g opponent i j directions then (i, j)
      else threatCells g opponent cells)"

definition findThreatsMove :: "AI \<Rightarrow> Board \<Rightarrow> int \<times> int" where
  "findThreatsMove ai b = threatCells (Grid b) (getOpponent ai) allCells"

subsection \<open>Position scores\<close>

text \<open>The counters of \<open>evaluateDirection\<close>.\<close>

record dirScan =
  myCount :: int
  oppCount :: int
  emptyCells :: int
  maxMySeq :: int
  maxOppSeq :: int
  currentMySeq :: int
  currentOppSeq :: int

text \<open>The body of the loop for one cell of the board, holding \<open>current\<close>.\<close>

definition scanCell :: "AI \<Rightarrow> Player \<Rightarrow> dirScan \<Rightarrow> dirScan" where
  "scanCell ai current s =
     (if current = player ai then
        let s1 = s\<lparr>myCount := myCount s + 1, currentMySeq := currentMySeq s + 1,
                    currentOppSeq := 0\<rparr>
        in if currentMySeq s1 > maxMySeq s1 then s1\<lparr>maxMySeq := currentMySeq s1\<rparr> else s1
      else if current = Empty then
        s\<lparr>emptyCells := emptyCells s + 1, currentMySeq := 0, currentOppSeq := 0\<rparr>
      else
        let s1 = s\<lparr>oppCount := oppCount s + 1, currentOppSeq := currentOppSeq s + 1,
                    currentMySeq := 0\<rparr>
        in if currentOppSeq s1 > maxOppSeq s1 then s1\<lparr>maxOppSeq := currentOppSeq s1\<rparr> else s1)"

text \<open>The loop over the offsets; a cell off the board is skipped (\<open>continue\<close>).\<close>

fun scanWindow :: "AI \<Rightarrow> (int \<Rightarrow> int \<Rightarrow> Player) \<Rightarrow> int \<Rightarrow> int \<Rightarrow> int \<Rightarrow> int \<Rightarrow> int list \<Rightarrow> dirScan \<Rightarrow> dirScan" where
  "scanWindow ai g row col dRow dCol [] s = s"
| "scanWindow ai g row col dRow dCol (i # offsets) s =
     (let r = row + dRow * i; c = col + dCol * i
      in if r < 0 \<or> r \<ge> BoardSize \<or> c < 0 \<or> c \<ge> BoardSize
         then scanWindow ai g row col dRow dCol offsets s
         else scanWindow ai g row col dRow dCol offsets (scanCell ai (g r c) s))"

definition scoreOfScan :: "dirScan \<Rightarrow> int" where
  "scoreOfScan s =
     (let score = 0;
          score = (if maxMySeq s \<ge> 4 then score + 2000
                   else if maxMySeq s = 3 \<and> emptyCells s \<ge> 2 then score + 1000
                   else if maxMySeq s = 2 \<and> emptyCells s \<ge> 3 then score + 100
                   else score);
          score = (if maxOppSeq s \<ge> 3 then score + 1500
                   else if maxOppSeq s = 2 \<and> emptyCells s \<ge> 3 then score + 200
                   else score);
          score = score + myCount s * 10;
          score = score + emptyCells s * 2
      in score)"

definition evaluateDirection :: "AI \<Rightarrow> Board \<Rightarrow> int \<Rightarrow> int \<Rightarrow> int \<Rightarrow> int \<Rightarrow> int" where
  "evaluateDirection ai b row col dRow dCol =
     scoreOfScan (scanWindow ai (Grid b) row col dRow dCol [-4 .. 4]
       \<lparr>myCount = 0, oppCount = 0, emptyCells = 0, maxMySeq = 0, maxOppSeq = 0,
        currentMySeq = 0, currentOppSeq = 0\<rparr>)"

text \<open>
  \<open>math.Abs(float64(x)) + math.Abs(float64(y))\<close> followed by \<open>int(d * k)\<close>: on board
  coordinates the floating-point values are exact integers, so the distance is computed
  on integers.
\<close>

definition manhattan :: "int \<Rightarrow> int \<Rightarrow> int \<Rightarrow> int \<Rightarrow> int" where
  "manhattan r c r' c' = \<bar>r - r'\<bar> + \<bar>c - c'\<bar>"

fun sumDirections :: "AI \<Rightarrow> Board \<Rightarrow> int \<Rightarrow> int \<Rightarrow> (int \<times> int) list \<Rightarrow> int \<Rightarrow> int" where
  "sumDirections ai b row col [] score = score"
| "sumDirections ai b row col (dir # dirs) score =
     sumDirections ai b row col dirs (score + evaluateDirection ai b row col (fst dir) (snd dir))"

definition evaluatePosition :: "AI \<Rightarrow> Board \<Rightarrow> int \<Rightarrow> int \<Rightarrow> panic + (Board \<times> int)" where
  "evaluatePosition ai b row col =
     (if \<not> isValidPosition row col then Inl IndexOutOfRange
      else
        let b1 = b\<lparr>Grid := setCell (Grid b) row col (player ai)\<rparr>
        in bindP (CheckWin b1 row col) (\<lambda>won.
             if won then Inr (b1\<lparr>Grid := setCell (Grid b1) row col Empty\<rparr>, 10000)
             else
               let b2 = b1\<lparr>Grid := setCell (Grid b1) row col Empty\<rparr>;
                   opponent = getOpponent ai;
                   b3 = b2\<lparr>Grid := setCell (Grid b2) row col opponent\<rparr>
               in bindP (CheckWin b3 row col) (\<lambda>won.
                    if won then Inr (b3\<lparr>Grid := setCell (Grid b3) row col Empty\<rparr>, 9000)
                    else
                      let b4 = b3\<lparr>Grid := setCell (Grid b3) row col Empty\<rparr>;
                          score = sumDirections ai b4 row col directions 0;
                          centerDist = manhattan row col (BoardSize div 2) (BoardSize div 2);
                          score = score - centerDist * 10;
                          score = (if length (MoveHistory b4) > 0 then
                                     let lastMove = last (MoveHistory b4);
                                         lastDist = manhattan row col (fst lastMove) (snd lastMove)
                                     in score - lastDist * 5
                                   else score)
                      in Inr (b4, score))))"

definition evaluatePositionMedium :: "AI \<Rightarrow> Board \<Rightarrow> int \<Rightarrow> int \<Rightarrow> panic + (Board \<times> int)" where
  "evaluatePositionMedium ai b row col =
     bindP (evaluatePosition ai b row col) (\<lambda>(b, score).
       let b1 = b\<lparr>Grid := setCell (Grid b) row col (player ai)\<rparr>
       in bindP (hasOpenFour b1 row col) (\<lambda>four.
          let score = (if four then score + 800 else score)
          in bindP (hasOpenThree b1 row col) (\<lambda>three.
          let score = (if three then score + 400 else score);
              b2 = b1\<lparr>Grid := setCell (Grid b1) row col Empty\<rparr>;
              opponent = getOpponent ai;
              b3 = b2\<lparr>Grid := setCell (Grid b2) row col opponent\<rparr>
          in bindP (hasOpenFour b3 row col) (\<lambda>four.
          let score = (if four then score + 700 else score)
          in bindP (hasOpenThree b3 row col) (\<lambda>three.
          let score = (if three then score + 300 else score)
          in Inr (b3\<lparr>Grid := setCell (Grid b3) row col Empty\<rparr>, score))))))"

text \<open>The neighbourhood loop of \<open>evaluatePositionHard\<close> over the offsets \<open>-2 .. 2\<close>.\<close>

fun nearbyStonesHard :: "(int \<Rightarrow> int \<Rightarrow> Player) \<Rightarrow> int \<Rightarrow> int \<Rightarrow> (int \<times> int) list \<Rightarrow> int \<Rightarrow> int" where
  "nearbyStonesHard g row col [] nearbyStones = nearbyStones"
| "nearbyStonesHard g row col ((i, j) # offsets) nearbyStones =
     (let r = row + i; c = col + j
      in if r \<ge> 0 \<and> r < BoardSize \<and> c \<ge> 0 \<and> c < BoardSize \<and> g r c \<noteq> Empty then
           (if \<bar>i\<bar> + \<bar>j\<bar> \<le> 1 then nearbyStonesHard g row col offsets (nearbyStones + 3)
            else nearbyStonesHard g row col offsets (nearbyStones + 1))
         else nearbyStonesHard g row col offsets nearbyStones)"

definition evaluatePositionHard :: "AI \<Rightarrow> Board \<Rightarrow> int \<Rightarrow> int \<Rightarrow> panic + (Board \<times> int)" where
  "evaluatePositionHard ai b row col =
     bindP (evaluatePosition ai b row col) (\<lambda>(b, score).
       let b1 = b\<lparr>Grid := setCell (Grid b) row col (player ai)\<rparr>
       in bindP (hasOpenFour b1 row col) (\<lambda>four.
          let score = (if four then score + 1200 else score)
          in bindP (hasDoubleThree b1 row col) (\<lambda>double.
          let score = (if double then score + 1000 else score)
          in bindP (hasOpenThree b1 row col) (\<lambda>three.
          let score = (if three then score + 600 else score);
              b2 = b1\<lparr>Grid := setCell (Grid b1) row col Empty\<rparr>;
              opponent = getOpponent ai;
              b3 = b2\<lparr>Grid := setCell (Grid b2) row col opponent\<rparr>
          in bindP (hasOpenFour b3 row col) (\<lambda>four.
          let score = (if four then score + 1000 else score)
          in bindP (hasDoubleThree b3 row col) (\<lambda>double.
          let score = (if double then score + 800 else score)
          in bindP (hasOpenThree b3 row col) (\<lambda>three.
          let score = (if three then score + 500 else score);
              b4 = b3\<lparr>Grid := setCell (Grid b3) row col Empty\<rparr>;
              centerDist = manhattan row col (BoardSize div 2) (BoardSize div 2);
              score = score - centerDist * 15;
              nearbyStones = nearbyStonesHard (Grid b4) row col (cellsIn (-2) 2 (-2) 2) 0;
              score = score + nearbyStones * 10;
              score = (if row \<le> 1 \<or> row \<ge> BoardSize - 2 \<or> col \<le> 1 \<or> col \<ge> BoardSize - 2
                       then score sdiv 2 else score)
          in Inr (b4, score))))))))"

subsection \<open>The easy strategy\<close>

text \<open>The loop that finds the range of the stones on the board.\<close>

fun stoneRange :: "(int \<Rightarrow> int \<Rightarrow> Player) \<Rightarrow> (int \<times> int) list \<Rightarrow> int \<times> int \<times> int \<times> int \<times> bool \<Rightarrow> int \<times> int \<times> int \<times> int \<times> bool" where
  "stoneRange g [] acc = acc"
| "stoneRange g ((i, j) # cells) (minRow, maxRow, minCol, maxCol, hasStones) =
     (if g i j \<noteq> Empty then
        stoneRange g cells
          (if i < minRow then i else minRow, if i > maxRow then i else maxRow,
           if j < minCol then j else minCol, if j > maxCol then j else maxCol, True)
      else stoneRange g cells (minRow, maxRow, minCol, maxCol, hasStones))"

text \<open>The loop over the eight neighbours (and the cell itself), carrying the flag and the weight.\<close>

fun nearbyStonesEasy :: "(int \<Rightarrow> int \<Rightarrow> Player) \<Rightarrow> int \<Rightarrow> int \<Rightarrow> (int \<times> int) list \<Rightarrow> bool \<times> int \<Rightarrow> bool \<times> int" where
  "nearbyStonesEasy g i j [] (hasNearbyStones, weight) = (hasNearbyStones, weight)"
| "nearbyStonesEasy g i j ((di, dj) # offsets) (hasNearbyStones, weight) =
     (let ni = i + di; nj = j + dj
      in if ni \<ge> 0 \<and> ni < BoardSize \<and> nj \<ge> 0 \<and> nj < BoardSize \<and> g ni nj \<noteq> Empty
         then nearbyStonesEasy g i j offsets (True, weight + 30)
         else nearbyStonesEasy g i j offsets (hasNearbyStones, weight))"

text \<open>
  The weight of one candidate cell.  Go's integer division truncates towards zero
  (\<open>sdiv\<close>).
\<close>

definition easyWeight :: "AI \<Rightarrow> Board \<Rightarrow> int \<Rightarrow> int \<Rightarrow> int \<Rightarrow> int \<Rightarrow> panic + (Board \<times> int)" where
  "easyWeight ai b lastRow lastCol i j =
     bindP (evaluatePosition ai b i j) (\<lambda>(b, v).
       let weight = 100;
           weight = weight + v;
           dist = manhattan i j lastRow lastCol;
           weight = (if dist \<le> 2 then weight + 100 else if dist \<le> 4 then weight + 50 else weight);
           centerDist = manhattan i j (BoardSize div 2) (BoardSize div 2);
           weight = (if centerDist \<le> 2 then weight + 150
                     else if centerDist \<le> 4 then weight + 80 else weight);
           hw = nearbyStonesEasy (Grid b) i j (cellsIn (-1) 1 (-1) 1) (False, weight);
           weight = (if \<not> fst hw then snd hw sdiv 2 else snd hw);
           weight = (if i \<le> 1 \<or> i \<ge> BoardSize - 2 \<or> j \<le> 1 \<or> j \<ge> BoardSize - 2
                     then weight sdiv 3 else weight)
       in Inr (b, weight))"

text \<open>The loop that collects the candidates \<open>(row, col, weight)\<close> of the range.\<close>

fun collectMoves :: "AI \<Rightarrow> Board \<Rightarrow> int \<Rightarrow> int \<Rightarrow> (int \<times> int) list \<Rightarrow> (int \<times> int \<times> int) list \<Rightarrow> panic + (Board \<times> (int \<times> int \<times> int) list)" where
  "collectMoves ai b lastRow lastCol [] moves = Inr (b, moves)"
| "collectMoves ai b lastRow lastCol ((i, j) # cells) moves =
     (if Grid b i j = Empty then
        case easyWeight ai b lastRow lastCol i j of
          Inl e \<Rightarrow> Inl e
        | Inr (b', weight) \<Rightarrow> collectMoves ai b' lastRow lastCol cells (moves @ [(i, j, weight)])
      else collectMoves ai b lastRow lastCol cells moves)"

text \<open>
  \<open>rand.Intn(n)\<close> panics when \<open>n <= 0\<close> and otherwise returns a number in \<open>[0, n)\<close>.
  The number drawn is a parameter \<open>rnd\<close> of the model, reduced into the range; every
  value of the range is the draw for some \<open>rnd\<close>.
\<close>

definition Intn :: "int \<Rightarrow> int \<Rightarrow> panic + int" where
  "Intn rnd n = (if n \<le> 0 then Inl InvalidIntnArgument else Inr (rnd mod n))"

definition weightOf :: "int \<times> int \<times> int \<Rightarrow> int" where
  "weightOf move = snd (snd move)"

definition cellOf :: "int \<times> int \<times> int \<Rightarrow> int \<times> int" where
  "cellOf move = (fst move, fst (snd move))"

fun totalWeightOf :: "(int \<times> int \<times> int) list \<Rightarrow> int \<Rightarrow> int" where
  "totalWeightOf [] totalWeight = totalWeight"
| "totalWeightOf (move # moves) totalWeight = totalWeightOf moves (totalWeight + weightOf move)"

text \<open>The cumulative scan; \<open>None\<close> when it falls through.\<close>

fun pickMove :: "(int \<times> int \<times> int) list \<Rightarrow> int \<Rightarrow> int \<Rightarrow> (int \<times> int) option" where
  "pickMove [] randomWeight currentWeight = None"
| "pickMove (move # moves) randomWeight currentWeight =
     (let currentWeight = currentWeight + weightOf move
      in if currentWeight > randomWeight then Some (cellOf move)
         else pickMove moves randomWeight currentWeight)"

fun heaviestMove :: "(int \<times> int \<times> int) list \<Rightarrow> int \<times> int \<times> int \<Rightarrow> int \<times> int \<times> int" where
  "heaviestMove [] bestMove = bestMove"
| "heaviestMove (move # moves) bestMove =
     heaviestMove moves (if weightOf move > weightOf bestMove then move else bestMove)"

fun firstEmpty :: "(int \<Rightarrow> int \<Rightarrow> Player) \<Rightarrow> (int \<times> int) list \<Rightarrow> int \<times> int" where
  "firstEmpty g [] = (-1, -1)"
| "firstEmpty g ((i, j) # cells) = (if g i j = Empty then (i, j) else firstEmpty g cells)"

text \<open>
  \<open>makeEasyMove\<close> in parts.  \<open>easyCandidates\<close> is the range of the stones and the
  collection of the candidates: on a board without stones it decides for the centre,
  otherwise it reaches the sampling step with the list of candidates.  \<open>easyPrelude\<close>
  is everything before the sampling: the three scans that may return a move at once,
  then \<open>easyCandidates\<close>.  \<open>makeEasyMove\<close> adds the sampling and the fallback scan.
\<close>

datatype easyStage = Decided "int \<times> int" | Candidates "(int \<times> int \<times> int) list"

definition easyCandidates :: "AI \<Rightarrow> Board \<Rightarrow> panic + (Board \<times> easyStage)" where
  "easyCandidates ai b =
     (case stoneRange (Grid b) allCells (BoardSize - 1, 0, BoardSize - 1, 0, False) of
       (minRow, maxRow, minCol, maxCol, hasStones) \<Rightarrow>
     if \<not> hasStones then Inr (b, Decided (BoardSize div 2, BoardSize div 2)) else
     let minRow = max 2 (minRow - 2);
         maxRow = min (BoardSize - 3) (maxRow + 2);
         minCol = max 2 (minCol - 2);
         maxCol = min (BoardSize - 3) (maxCol + 2);
         lastMove = (if length (MoveHistory b) > 0 then last (MoveHistory b)
                     else (BoardSize div 2, BoardSize div 2))
     in bindP (collectMoves ai b (fst lastMove) (snd lastMove)
                 (cellsIn minRow maxRow minCol maxCol) []) (\<lambda>(b, moves).
        Inr (b, Candidates moves)))"

definition easyPrelude :: "AI \<Rightarrow> Board \<Rightarrow> panic + (Board \<times> easyStage)" where
  "easyPrelude ai b =
     bindP (findWinningMove b (player ai)) (\<lambda>(b, move).
     if fst move \<ge> 0 then Inr (b, Decided move) else
     bindP (findWinningMove b (getOpponent ai)) (\<lambda>(b, move).
     if fst move \<ge> 0 then Inr (b, Decided move) else
     let move = findThreatsMove ai b in
     if fst move \<ge> 0 then Inr (b, Decided move) else
     easyCandidates ai b))"

definition makeEasyMove :: "AI \<Rightarrow> Board \<Rightarrow> int \<Rightarrow> panic + (Board \<times> (int \<times> int))" where
  "makeEasyMove ai b rnd =
     bindP (easyPrelude ai b) (\<lambda>(b, stage).
     case stage of
       Decided move \<Rightarrow> Inr (b, move)
     | Candidates moves \<Rightarrow>
         if length moves > 0 then
           let totalWeight = totalWeightOf moves 0
           in bindP (Intn rnd totalWeight) (\<lambda>randomWeight.
              case pickMove moves randomWeight 0 of
                Some cell \<Rightarrow> Inr (b, cell)
              | None \<Rightarrow> Inr (b, cellOf (heaviestMove moves (hd moves))))
         else Inr (b, firstEmpty (Grid b) allCells))"

subsection \<open>The medium and hard strategies\<close>

definition MinInt32 :: int where
  "MinInt32 = - 2147483648"

text \<open>
  The search for the best score over all empty cells, with the strict comparison; it
  carries \<open>(bestScore, bestMove)\<close> and is used with either scoring function.
\<close>

fun bestScoreScan :: "(Board \<Rightarrow> int \<Rightarrow> int \<Rightarrow> panic + (Board \<times> int)) \<Rightarrow> Board \<Rightarrow> (int \<times> int) list \<Rightarrow> int \<times> (int \<times> int) \<Rightarrow> panic + (Board \<times> (int \<times> int))" where
  "bestScoreScan eval b [] (bestScore, bestMove) = Inr (b, bestMove)"
| "bestScoreScan eval b ((i, j) # cells) (bestScore, bestMove) =
     (if Grid b i j = Empty then
        case eval b i j of
          Inl e \<Rightarrow> Inl e
        | Inr (b', score) \<Rightarrow>
            if score > bestScore then bestScoreScan eval b' cells (score, (i, j))
            else bestScoreScan eval b' cells (bestScore, bestMove)
      else bestScoreScan eval b cells (bestScore, bestMove))"

definition makeMediumMove :: "AI \<Rightarrow> Board \<Rightarrow> int \<Rightarrow> panic + (Board \<times> (int \<times> int))" where
  "makeMediumMove ai b rnd =
     bindP (findWinningMove b (player ai)) (\<lambda>(b, move).
     if fst move \<ge> 0 then Inr (b, move) else
     bindP (findWinningMove b (getOpponent ai)) (\<lambda>(b, move).
     if fst move \<ge> 0 then Inr (b, move) else
     bindP (findOpenFourMove b (player ai)) (\<lambda>(b, move).
     if fst move \<ge> 0 then Inr (b, move) else
     bindP (findOpenFourMove b (getOpponent ai)) (\<lambda>(b, move).
     if fst move \<ge> 0 then Inr (b, move) else
     bindP (findOpenThreeMove b (player ai)) (\<lambda>(b, move).
     if fst move \<ge> 0 then Inr (b, move) else
     let move = findThreatsMove ai b in
     if fst move \<ge> 0 then Inr (b, move) else
     bindP (bestScoreScan (evaluatePositionMedium ai) b allCells (MinInt32, (-1, -1)))
       (\<lambda>(b, bestMove).
     if fst bestMove \<ge> 0 then Inr (b, bestMove) else
     makeEasyMove ai b rnd))))))"

definition makeHardMove :: "AI \<Rightarrow> Board \<Rightarrow> int \<Rightarrow> panic + (Board \<times> (int \<times> int))" where
  "makeHardMove ai b rnd =
     bindP (findWinningMove b (player ai)) (\<lambda>(b, move).
     if fst move \<ge> 0 then Inr (b, move) else
     bindP (findWinningMove b (getOpponent ai)) (\<lambda>(b, move).
     if fst move \<ge> 0 then Inr (b, move) else
     bindP (findAdvancedThreatMove b (player ai)) (\<lambda>(b, move).
     if fst move \<ge> 0 then Inr (b, move) else
     bindP (findAdvancedThreatMove b (getOpponent ai)) (\<lambda>(b, move).
     if fst move \<ge> 0 then Inr (b, move) else
     bindP (findOpenThreeMove b (player ai)) (\<lambda>(b, move).
     if fst move \<ge> 0 then Inr (b, move) else
     bindP (findOpenThreeMove b (getOpponent ai)) (\<lambda>(b, move).
     if fst move \<ge> 0 then Inr (b, move) else
     bindP (bestScoreScan (evaluatePositionHard ai) b allCells (MinInt32, (-1, -1)))
       (\<lambda>(b, bestMove).
     if fst bestMove \<ge> 0 then Inr (b, bestMove) else
     makeMediumMove ai b rnd)))))))"

definition MakeMove :: "AI \<Rightarrow> Board \<Rightarrow> int \<Rightarrow> panic + (Board \<times> (int \<times> int))" where
  "MakeMove ai b rnd =
     (case difficulty ai of
        Easy \<Rightarrow> makeEasyMove ai b rnd
      | Medium \<Rightarrow> makeMediumMove ai b rnd
      | Hard \<Rightarrow> makeHardMove ai b rnd)"

section \<open>Positions used in the examples\<close>

text \<open>
  A caller placing stones one after the other from a position, stopping at the first
  call that does not return nil (the way the window's click handler drives the board).
\<close>

fun playMoves :: "Board \<Rightarrow> (int \<times> int) list \<Rightarrow> panic + (Board \<times> error option)" where
  "playMoves b [] = Inr (b, None)"
| "playMoves b (m # ms) =
     (case PlaceStone b (fst m) (snd m) of
        Inr (b', None) \<Rightarrow> playMoves b' ms
      | other \<Rightarrow> other)"

text \<open>A grid with stones of one colour written on the listed cells.\<close>

fun stones :: "Player \<Rightarrow> (int \<times> int) list \<Rightarrow> (int \<Rightarrow> int \<Rightarrow> Player) \<Rightarrow> (int \<Rightarrow> int \<Rightarrow> Player)" where
  "stones p [] g = g"
| "stones p (m # ms) g = stones p ms (setCell g (fst m) (snd m) p)"

definition afterCentre :: Board where
  "afterCentre = \<lparr>Grid = setCell (\<lambda>r c. Empty) 7 7 Black, CurrentTurn = White,
     MoveHistory = [(7, 7)], GameFinished = False\<rparr>"

definition fiveVertical :: Board where
  "fiveVertical = NewBoard\<lparr>Grid := stones Black [(3,7),(4,7),(5,7),(6,7),(7,7)] (Grid NewBoard)\<rparr>"

definition fiveHorizontal :: Board where
  "fiveHorizontal = NewBoard\<lparr>Grid := stones Black [(7,3),(7,4),(7,5),(7,6),(7,7)] (Grid NewBoard)\<rparr>"

definition fiveDiagonal :: Board where
  "fiveDiagonal = NewBoard\<lparr>Grid := stones White [(3,3),(4,4),(5,5),(6,6),(7,7)] (Grid NewBoard)\<rparr>"

definition fiveAntiDiagonal :: Board where
  "fiveAntiDiagonal = NewBoard\<lparr>Grid := stones White [(3,7),(4,6),(5,5),(6,4),(7,3)] (Grid NewBoard)\<rparr>"

definition blockedFour :: Board where
  "blockedFour = NewBoard\<lparr>Grid := stones White [(7,3),(7,8)]
      (stones Black [(7,4),(7,5),(7,6),(7,7)] (Grid NewBoard))\<rparr>"

text \<open>
  The shape an open three is described by: the contiguous run of the cell's player
  through the cell has exactly three cells, and the cell just beyond each end of the run
  is on the board and empty.
\<close>

definition emptyAt :: "(int \<Rightarrow> int \<Rightarrow> Player) \<Rightarrow> int \<Rightarrow> int \<Rightarrow> bool" where
  "emptyAt g r c \<longleftrightarrow> isValidPosition r c \<and> g r c = Empty"

definition openThreeShape :: "(int \<Rightarrow> int \<Rightarrow> Player) \<Rightarrow> int \<Rightarrow> int \<Rightarrow> int \<times> int \<Rightarrow> bool" where
  "openThreeShape g row col dir =
     (let f = int (runLength (nat BoardSize) g (g row col) row col (fst dir) (snd dir));
          k = int (runLength (nat BoardSize) g (g row col) row col (- fst dir) (- snd dir))
      in runThrough g row col dir = 3
         \<and> emptyAt g (row + fst dir * (f + 1)) (col + snd dir * (f + 1))
         \<and> emptyAt g (row - fst dir * (k + 1)) (col - snd dir * (k + 1)))"

definition crossOfThrees :: Board where
  "crossOfThrees = NewBoard\<lparr>Grid := stones Black [(7,6),(7,7),(7,8),(6,7),(8,7)] (Grid NewBoard)\<rparr>"

definition singleThree :: Board where
  "singleThree = NewBoard\<lparr>Grid := stones Black [(7,6),(7,7),(7,8)] (Grid NewBoard)\<rparr>"

text \<open>A computation on board \<open>b\<close> that, when it returns, returns \<open>b\<close> itself.\<close>

definition keeps :: "Board \<Rightarrow> panic + (Board \<times> 'a) \<Rightarrow> bool" where
  "keeps b m \<longleftrightarrow> (\<forall>b' x. m = Inr (b', x) \<longrightarrow> b' = b)"

text \<open>White to move with four stones in the top row: the first cell scanned wins.\<close>

definition whiteToWin :: Board where
  "whiteToWin = \<lparr>Grid = stones White [(0,1),(0,2),(0,3),(0,4)]
       (stones Black [(14,0),(14,1),(14,2),(14,3),(13,10)] (\<lambda>r c. Empty)),
     CurrentTurn = White,
     MoveHistory = [(14,0),(0,1),(14,1),(0,2),(14,2),(0,3),(14,3),(0,4),(13,10)],
     GameFinished = False\<rparr>"

text \<open>At most one cell of the grid holds the value \<open>p\<close>.\<close>

definition atMostOne :: "Player \<Rightarrow> (int \<Rightarrow> int \<Rightarrow> Player) \<Rightarrow> bool" where
  "atMostOne p g \<longleftrightarrow> (\<forall>r c r' c'. g r c = p \<longrightarrow> g r' c' = p \<longrightarrow> r = r' \<and> c = c')"

text \<open>
  Sparse positions.  \<open>cornerStone\<close> is the board after Black's first stone at the corner,
  \<open>twoStones\<close> the board after the moves (4, 4) and (14, 14).
\<close>

definition cornerStone :: Board where
  "cornerStone = \<lparr>Grid = stones Black [(0,0)] (\<lambda>r c. Empty), CurrentTurn = White,
     MoveHistory = [(0,0)], GameFinished = False\<rparr>"

definition twoStones :: Board where
  "twoStones = \<lparr>Grid = setCell (setCell (\<lambda>r c. Empty) 4 4 Black) 14 14 White, CurrentTurn = Black,
     MoveHistory = [(4,4),(14,14)], GameFinished = False\<rparr>"

text \<open>
  The description of the base score.  The window of a cell along an axis is the list of
  the cells at the offsets -4 to 4 that lie on the board; the longest run of a list is
  the greatest length of a block of consecutive entries with the given property.
\<close>

definition windowCells :: "(int \<Rightarrow> int \<Rightarrow> Player) \<Rightarrow> int \<Rightarrow> int \<Rightarrow> int \<times> int \<Rightarrow> Player list" where
  "windowCells g row col dir =
     map (\<lambda>i. g (row + fst dir * i) (col + snd dir * i))
       (filter (\<lambda>i. isValidPosition (row + fst dir * i) (col + snd dir * i)) [-4 .. 4])"

fun longestRun :: "('a \<Rightarrow> bool) \<Rightarrow> 'a list \<Rightarrow> nat" where
  "longestRun P [] = 0"
| "longestRun P (x # xs) = max (length (takeWhile P (x # xs))) (longestRun P xs)"

definition directionScore :: "AI \<Rightarrow> (int \<Rightarrow> int \<Rightarrow> Player) \<Rightarrow> int \<Rightarrow> int \<Rightarrow> int \<times> int \<Rightarrow> int" where
  "directionScore ai g row col dir =
     (let window = windowCells g row col dir;
          ownRun = longestRun (\<lambda>x. x = player ai) window;
          oppRun = longestRun (\<lambda>x. x = getOpponent ai) window;
          empties = int (length (filter (\<lambda>x. x = Empty) window));
          own = int (length (filter (\<lambda>x. x = player ai) window))
      in (if ownRun \<ge> 4 then 2000
          else if ownRun = 3 \<and> empties \<ge> 2 then 1000
          else if ownRun = 2 \<and> empties \<ge> 3 then 100 else 0)
       + (if oppRun \<ge> 3 then 1500
          else if oppRun = 2 \<and> empties \<ge> 3 then 200 else 0)
       + 10 * own + 2 * empties)"

definition winsWith :: "Board \<Rightarrow> int \<Rightarrow> int \<Rightarrow> Player \<Rightarrow> bool" where
  "winsWith b row col p \<longleftrightarrow> CheckWin (b\<lparr>Grid := setCell (Grid b) row col p\<rparr>) row col = Inr True"

definition baseScore :: "AI \<Rightarrow> Board \<Rightarrow> int \<Rightarrow> int \<Rightarrow> int" where
  "baseScore ai b row col =
     (if winsWith b row col (player ai) then 10000
      else if winsWith b row col (getOpponent ai) then 9000
      else (\<Sum>dir \<leftarrow> directions. directionScore ai (Grid b) row col dir)
           - 10 * manhattan row col (BoardSize div 2) (BoardSize div 2)
           - (if MoveHistory b \<noteq> [] then
                5 * manhattan row col (fst (last (MoveHistory b))) (snd (last (MoveHistory b)))
              else 0))"

section \<open>Basic facts\<close>

lemmas board_eval = CheckWin_def checkDirs.simps countLine.simps directions_def setCell_def
  isValidPosition_def BoardSize_def WinCondition_def upto_rec1 Let_def NewBoard_def
  PlaceStone_def Undo_def nextPlayer_def

lemmas example_boards = fiveVertical_def fiveHorizontal_def fiveDiagonal_def
  fiveAntiDiagonal_def blockedFour_def

lemma setCell_same: "setCell g row col p row col = p"
  by (simp add: setCell_def)

lemma setCell_other: "(r, c) \<noteq> (row, col) \<Longrightarrow> setCell g row col p r c = g r c"
  by (auto simp: setCell_def)

lemma setCell_restore: "g row col = v \<Longrightarrow> setCell (setCell g row col p) row col v = g"
  by (auto simp: setCell_def fun_eq_iff)

subsection \<open>The counting loops of the win test against run lengths\<close>

lemma steps_WinCondition: "[1 .. WinCondition - 1] = [1, 2, 3, 4]"
  by (simp add: WinCondition_def upto_rec1)

lemma countLine_step:
  "countLine g p row col dr dc (i # steps) c =
     (if isValidPosition (row + dr * i) (col + dc * i) \<and> g (row + dr * i) (col + dc * i) = p
      then countLine g p row col dr dc steps (c + 1) else c)"
  by (simp add: Let_def)

lemma runLength_shift:
  "runLength (Suc n) g p (row + dr * i) (col + dc * i) dr dc =
     (if isValidPosition (row + dr * (i + 1)) (col + dc * (i + 1))
         \<and> g (row + dr * (i + 1)) (col + dc * (i + 1)) = p
      then Suc (runLength n g p (row + dr * (i + 1)) (col + dc * (i + 1)) dr dc) else 0)"
proof -
  have pos: "row + dr * i + dr = row + dr * (i + 1)" "col + dc * i + dc = col + dc * (i + 1)"
    by (simp_all add: algebra_simps)
  show ?thesis unfolding runLength.simps pos ..
qed

lemma countLine_run:
  "countLine g p row col dr dc [1, 2, 3, 4] c
     = c + int (min 4 (runLength (Suc (Suc (Suc (Suc m)))) g p row col dr dc))"
proof -
  have "runLength (Suc (Suc (Suc (Suc m)))) g p row col dr dc
      = runLength (Suc (Suc (Suc (Suc m)))) g p (row + dr * 0) (col + dc * 0) dr dc"
    by simp
  also have "\<dots> =
     (if isValidPosition (row + dr * 1) (col + dc * 1) \<and> g (row + dr * 1) (col + dc * 1) = p
      then Suc (if isValidPosition (row + dr * 2) (col + dc * 2) \<and> g (row + dr * 2) (col + dc * 2) = p
      then Suc (if isValidPosition (row + dr * 3) (col + dc * 3) \<and> g (row + dr * 3) (col + dc * 3) = p
      then Suc (if isValidPosition (row + dr * 4) (col + dc * 4) \<and> g (row + dr * 4) (col + dc * 4) = p
      then Suc (runLength m g p (row + dr * 4) (col + dc * 4) dr dc) else 0) else 0) else 0) else 0)"
    using runLength_shift[of "Suc (Suc (Suc m))" g p row dr 0 col dc]
          runLength_shift[of "Suc (Suc m)" g p row dr 1 col dc]
          runLength_shift[of "Suc m" g p row dr 2 col dc]
          runLength_shift[of "m" g p row dr 3 col dc]
    by simp
  finally show ?thesis
    by (simp add: countLine_step)
qed

lemma int_ge_four: "(4::int) \<le> int a + int b \<longleftrightarrow> 4 \<le> a + b"
  by linarith

lemma checkDirs_step:
  "checkDirs g p row col (dir # dirs) \<longleftrightarrow>
     5 \<le> 1 + min 4 (runLength (nat BoardSize) g p row col (fst dir) (snd dir))
           + min 4 (runLength (nat BoardSize) g p row col (- fst dir) (- snd dir))
     \<or> checkDirs g p row col dirs"
proof -
  have n: "nat BoardSize = Suc (Suc (Suc (Suc 11)))"
    by (simp add: BoardSize_def)
  have "checkDirs g p row col (dir # dirs) \<longleftrightarrow>
     WinCondition \<le> countLine g p row col (- fst dir) (- snd dir) [1, 2, 3, 4]
        (countLine g p row col (fst dir) (snd dir) [1, 2, 3, 4] 1)
     \<or> checkDirs g p row col dirs"
    by (simp add: steps_WinCondition Let_def del: countLine.simps)
  also have "\<dots> \<longleftrightarrow>
     5 \<le> 1 + min 4 (runLength (nat BoardSize) g p row col (fst dir) (snd dir))
           + min 4 (runLength (nat BoardSize) g p row col (- fst dir) (- snd dir))
     \<or> checkDirs g p row col dirs"
    unfolding n countLine_run[where m = 11] WinCondition_def
    by (simp add: int_ge_four del: countLine.simps runLength.simps)
  finally show ?thesis .
qed

lemma checkDirs_run:
  "checkDirs g (g row col) row col dirs \<longleftrightarrow> (\<exists>dir \<in> set dirs. 5 \<le> runThrough g row col dir)"
proof (induction dirs)
  case Nil
  then show ?case by simp
next
  case (Cons dir dirs)
  show ?case
    unfolding checkDirs_step Cons.IH runThrough_def by auto
qed

section \<open>Placing a stone\<close>

text \<open>
  Claim C1.  On a board that is not finished, placing a stone on an empty cell of the
  board returns nil; afterwards the cell holds the player who was to move, every other
  cell is as before, the move is the last entry of the history, and either the win
  test at the new stone holds, the finished flag is set and the turn is unchanged, or
  the flag is still false and the turn went to the other player.
\<close>

theorem PlaceStone_success:
  assumes "isValidPosition row col" and "Grid b row col = Empty" and "\<not> GameFinished b"
  shows "\<exists>b'. PlaceStone b row col = Inr (b', None)
     \<and> Grid b' row col = CurrentTurn b
     \<and> (\<forall>r c. (r, c) \<noteq> (row, col) \<longrightarrow> Grid b' r c = Grid b r c)
     \<and> MoveHistory b' = MoveHistory b @ [(row, col)]
     \<and> (if CheckWin b' row col = Inr True
         then GameFinished b' \<and> CurrentTurn b' = CurrentTurn b
         else \<not> GameFinished b' \<and> CurrentTurn b' = nextPlayer b
           \<and> (CurrentTurn b = Black \<longrightarrow> CurrentTurn b' = White)
           \<and> (CurrentTurn b = White \<longrightarrow> CurrentTurn b' = Black))"
  using assms
  by (auto simp: PlaceStone_def Let_def CheckWin_def isValidPosition_def nextPlayer_def setCell_def)

theorem PlaceStone_success_witness:
  "isValidPosition 7 7 \<and> Grid NewBoard 7 7 = Empty \<and> \<not> GameFinished NewBoard
   \<and> (\<exists>b'. PlaceStone NewBoard 7 7 = Inr (b', None)
     \<and> Grid b' 7 7 = Black \<and> MoveHistory b' = [(7, 7)]
     \<and> CheckWin b' 7 7 = Inr False \<and> \<not> GameFinished b' \<and> CurrentTurn b' = White)"
proof -
  have h: "isValidPosition 7 7" "Grid NewBoard 7 7 = Empty" "\<not> GameFinished NewBoard"
    by (simp_all add: isValidPosition_def BoardSize_def NewBoard_def)
  from PlaceStone_success[OF h] obtain b' where
    b': "PlaceStone NewBoard 7 7 = Inr (b', None)" "Grid b' 7 7 = CurrentTurn NewBoard"
        "MoveHistory b' = MoveHistory NewBoard @ [(7, 7)]"
    by blast
  have "PlaceStone NewBoard 7 7 = Inr (NewBoard\<lparr>Grid := setCell (Grid NewBoard) 7 7 Black,
          MoveHistory := [(7, 7)], CurrentTurn := White\<rparr>, None)"
    by (simp add: board_eval)
  with b'(1) have e: "b' = NewBoard\<lparr>Grid := setCell (Grid NewBoard) 7 7 Black,
          MoveHistory := [(7, 7)], CurrentTurn := White\<rparr>"
    by simp
  have "CheckWin b' 7 7 = Inr False \<and> \<not> GameFinished b' \<and> CurrentTurn b' = White"
    unfolding e by (simp add: board_eval)
  with h b' show ?thesis
    by (simp add: NewBoard_def)
qed

section \<open>Error returns\<close>

text \<open>
  Claim C5.  \<open>PlaceStone\<close> returns an error exactly in three cases, tested in this
  order: the cell is off the board (\<open>OutOfBounds\<close>), the cell is not empty
  (\<open>CellOccupied\<close>), the finished flag is set (\<open>GameAlreadyFinished\<close>); otherwise it
  returns nil.  \<open>Undo\<close> returns an error (\<open>NoMovesToUndo\<close>) exactly when the history is
  empty.  Whenever either returns an error, the board is the one it was given.
\<close>

theorem PlaceStone_Undo_errors:
  shows "(\<not> isValidPosition row col \<longrightarrow> PlaceStone b row col = Inr (b, Some OutOfBounds))
   \<and> (isValidPosition row col \<and> Grid b row col \<noteq> Empty \<longrightarrow>
        PlaceStone b row col = Inr (b, Some CellOccupied))
   \<and> (isValidPosition row col \<and> Grid b row col = Empty \<and> GameFinished b \<longrightarrow>
        PlaceStone b row col = Inr (b, Some GameAlreadyFinished))
   \<and> (isValidPosition row col \<and> Grid b row col = Empty \<and> \<not> GameFinished b \<longrightarrow>
        (\<exists>b'. PlaceStone b row col = Inr (b', None)))
   \<and> (MoveHistory b = [] \<longrightarrow> Undo b = Inr (b, Some NoMovesToUndo))
   \<and> (MoveHistory b \<noteq> [] \<longrightarrow> (\<forall>b' e. Undo b \<noteq> Inr (b', Some e)))
   \<and> (\<forall>b' e. PlaceStone b row col = Inr (b', Some e) \<or> Undo b = Inr (b', Some e) \<longrightarrow> b' = b)"
  by (auto simp: PlaceStone_def Undo_def Let_def CheckWin_def isValidPosition_def split: if_splits)

theorem PlaceStone_Undo_errors_witness:
  "PlaceStone NewBoard 15 0 = Inr (NewBoard, Some OutOfBounds)
   \<and> PlaceStone afterCentre 7 7 = Inr (afterCentre, Some CellOccupied)
   \<and> PlaceStone (afterCentre\<lparr>GameFinished := True\<rparr>) 0 0
        = Inr (afterCentre\<lparr>GameFinished := True\<rparr>, Some GameAlreadyFinished)
   \<and> (\<exists>b'. PlaceStone afterCentre 0 0 = Inr (b', None))
   \<and> Undo NewBoard = Inr (NewBoard, Some NoMovesToUndo)
   \<and> (\<forall>b' e. Undo afterCentre \<noteq> Inr (b', Some e))"
proof -
  have h1: "\<not> isValidPosition 15 0"
    by (simp add: isValidPosition_def BoardSize_def)
  have h2: "isValidPosition 7 7 \<and> Grid afterCentre 7 7 \<noteq> Empty"
    by (simp add: isValidPosition_def BoardSize_def afterCentre_def setCell_def)
  have h3: "isValidPosition 0 0 \<and> Grid (afterCentre\<lparr>GameFinished := True\<rparr>) 0 0 = Empty
      \<and> GameFinished (afterCentre\<lparr>GameFinished := True\<rparr>)"
    by (simp add: isValidPosition_def BoardSize_def afterCentre_def setCell_def)
  have h4: "isValidPosition 0 0 \<and> Grid afterCentre 0 0 = Empty \<and> \<not> GameFinished afterCentre"
    by (simp add: isValidPosition_def BoardSize_def afterCentre_def setCell_def)
  have h5: "MoveHistory NewBoard = []"
    by (simp add: NewBoard_def)
  have h6: "MoveHistory afterCentre \<noteq> []"
    by (simp add: afterCentre_def)
  have c1: "PlaceStone NewBoard 15 0 = Inr (NewBoard, Some OutOfBounds)"
    using PlaceStone_Undo_errors[of 15 0 NewBoard] h1 by simp
  have c2: "PlaceStone afterCentre 7 7 = Inr (afterCentre, Some CellOccupied)"
    using PlaceStone_Undo_errors[of 7 7 afterCentre] h2 by simp
  have c3: "PlaceStone (afterCentre\<lparr>GameFinished := True\<rparr>) 0 0
        = Inr (afterCentre\<lparr>GameFinished := True\<rparr>, Some GameAlreadyFinished)"
    using PlaceStone_Undo_errors[of 0 0 "afterCentre\<lparr>GameFinished := True\<rparr>"] h3 by simp
  have c4: "\<exists>b'. PlaceStone afterCentre 0 0 = Inr (b', None)"
    using PlaceStone_Undo_errors[of 0 0 afterCentre] h4 by simp
  have c5: "Undo NewBoard = Inr (NewBoard, Some NoMovesToUndo)"
    using PlaceStone_Undo_errors[of 0 0 NewBoard] h5 by simp
  have c6: "\<forall>b' e. Undo afterCentre \<noteq> Inr (b', Some e)"
    using PlaceStone_Undo_errors[of 0 0 afterCentre] h6 by simp
  from c1 c2 c3 c4 c5 c6 show ?thesis by simp
qed

section \<open>The win test\<close>

text \<open>
  Claim C6.  At an occupied cell of the board, \<open>CheckWin\<close> returns true exactly when
  along one of the four axes the contiguous run of cells holding the same player as the
  cell, taken through the cell in both directions, has at least five cells.  The result
  is the same on every board with the same grid, whatever its history.  The witness
  evaluates a five-in-a-row along each axis (true) and a four-in-a-row closed at both
  ends (false).
\<close>

theorem CheckWin_five_in_a_row:
  assumes "isValidPosition row col" and "Grid b row col \<noteq> Empty"
  shows "CheckWin b row col = Inr (\<exists>dir \<in> set directions. 5 \<le> runThrough (Grid b) row col dir)
     \<and> (\<forall>b'. Grid b' = Grid b \<longrightarrow> CheckWin b' row col = CheckWin b row col)"
  using assms by (simp add: CheckWin_def checkDirs_run)

theorem CheckWin_five_in_a_row_witness:
  "(isValidPosition 5 7 \<and> Grid fiveVertical 5 7 \<noteq> Empty)
   \<and> (isValidPosition 7 5 \<and> Grid fiveHorizontal 7 5 \<noteq> Empty)
   \<and> (isValidPosition 3 3 \<and> Grid fiveDiagonal 3 3 \<noteq> Empty)
   \<and> (isValidPosition 5 5 \<and> Grid fiveAntiDiagonal 5 5 \<noteq> Empty)
   \<and> (isValidPosition 7 5 \<and> Grid blockedFour 7 5 \<noteq> Empty)
   \<and> CheckWin fiveVertical 5 7 = Inr True
   \<and> (\<exists>dir \<in> set directions. 5 \<le> runThrough (Grid fiveVertical) 5 7 dir)
   \<and> CheckWin fiveHorizontal 7 5 = Inr True
   \<and> (\<exists>dir \<in> set directions. 5 \<le> runThrough (Grid fiveHorizontal) 7 5 dir)
   \<and> CheckWin fiveDiagonal 3 3 = Inr True
   \<and> (\<exists>dir \<in> set directions. 5 \<le> runThrough (Grid fiveDiagonal) 3 3 dir)
   \<and> CheckWin fiveAntiDiagonal 5 5 = Inr True
   \<and> (\<exists>dir \<in> set directions. 5 \<le> runThrough (Grid fiveAntiDiagonal) 5 5 dir)
   \<and> CheckWin blockedFour 7 5 = Inr False
   \<and> \<not> (\<exists>dir \<in> set directions. 5 \<le> runThrough (Grid blockedFour) 7 5 dir)
   \<and> CheckWin (blockedFour\<lparr>MoveHistory := [(0, 0)]\<rparr>) 7 5 = CheckWin blockedFour 7 5"
proof -
  have h1: "isValidPosition 5 7" "Grid fiveVertical 5 7 \<noteq> Empty"
    and h2: "isValidPosition 7 5" "Grid fiveHorizontal 7 5 \<noteq> Empty"
    and h3: "isValidPosition 3 3" "Grid fiveDiagonal 3 3 \<noteq> Empty"
    and h4: "isValidPosition 5 5" "Grid fiveAntiDiagonal 5 5 \<noteq> Empty"
    and h5: "isValidPosition 7 5" "Grid blockedFour 7 5 \<noteq> Empty"
    by (simp_all add: example_boards isValidPosition_def BoardSize_def NewBoard_def setCell_def)
  have e: "CheckWin fiveVertical 5 7 = Inr True" "CheckWin fiveHorizontal 7 5 = Inr True"
    "CheckWin fiveDiagonal 3 3 = Inr True" "CheckWin fiveAntiDiagonal 5 5 = Inr True"
    "CheckWin blockedFour 7 5 = Inr False"
    by (simp_all add: example_boards board_eval)
  have g: "Grid (blockedFour\<lparr>MoveHistory := [(0, 0)]\<rparr>) = Grid blockedFour"
    by simp
  show ?thesis
    using CheckWin_five_in_a_row[OF h1] CheckWin_five_in_a_row[OF h2]
      CheckWin_five_in_a_row[OF h3] CheckWin_five_in_a_row[OF h4]
      CheckWin_five_in_a_row[OF h5] h1 h2 h3 h4 h5 e g
    by simp
qed

text \<open>
  Claim C10.  At an empty cell of the board the player compared against is \<open>Empty\<close>,
  so \<open>CheckWin\<close> counts empty cells: it returns true exactly when some axis has at least
  five contiguous empty cells through the cell.  The witness is the centre of the new
  board, where no cell holds a stone and the result is true.
\<close>

theorem CheckWin_on_empty_cell:
  assumes "isValidPosition row col" and "Grid b row col = Empty"
  shows "CheckWin b row col = Inr (\<exists>dir \<in> set directions.
           5 \<le> 1 + runLength (nat BoardSize) (Grid b) Empty row col (fst dir) (snd dir)
                 + runLength (nat BoardSize) (Grid b) Empty row col (- fst dir) (- snd dir))"
  using assms checkDirs_run[of "Grid b" row col directions]
  by (simp add: CheckWin_def runThrough_def)

theorem CheckWin_on_empty_cell_witness:
  "isValidPosition 7 7 \<and> Grid NewBoard 7 7 = Empty \<and> (\<forall>r c. Grid NewBoard r c = Empty)
   \<and> CheckWin NewBoard 7 7 = Inr True
   \<and> (\<exists>dir \<in> set directions.
           5 \<le> 1 + runLength (nat BoardSize) (Grid NewBoard) Empty 7 7 (fst dir) (snd dir)
                 + runLength (nat BoardSize) (Grid NewBoard) Empty 7 7 (- fst dir) (- snd dir))"
proof -
  have h: "isValidPosition 7 7" "Grid NewBoard 7 7 = Empty"
    by (simp_all add: isValidPosition_def BoardSize_def NewBoard_def)
  have e: "CheckWin NewBoard 7 7 = Inr True"
    by (simp add: board_eval)
  show ?thesis
    using CheckWin_on_empty_cell[OF h] h e by (simp add: NewBoard_def)
qed

section \<open>Undo after a placement\<close>

text \<open>
  When the placed stone does not win and the turn is Black's or White's, \<open>Undo\<close> gives
  back the board as it was.
\<close>

lemma PlaceStone_Undo_no_win:
  assumes "PlaceStone b row col = Inr (b', None)" and "\<not> GameFinished b'"
    and "CurrentTurn b = Black \<or> CurrentTurn b = White"
  shows "Undo b' = Inr (b, None)"
  using assms
  by (auto simp: PlaceStone_def Undo_def Let_def CheckWin_def isValidPosition_def nextPlayer_def
      setCell_restore split: if_splits)

text \<open>
  Claim C2.  Placing a stone and undoing it at once should give back the grid, the
  player to move, the history and the finished flag.  After the eight opening moves
  below Black is to move with four stones in row 7; the stone at (7, 7) wins, so
  \<open>PlaceStone\<close> leaves the turn with Black; \<open>Undo\<close> then flips the turn, and the player
  to move is White although it was Black before the placement.  Grid, history and flag
  are restored.
\<close>

theorem Undo_after_winning_move_turn:
  "\<exists>b b1 b2. playMoves NewBoard [(7,3),(0,0),(7,4),(0,1),(7,5),(0,2),(7,6),(0,3)] = Inr (b, None)
   \<and> \<not> GameFinished b \<and> CurrentTurn b = Black \<and> Grid b 7 7 = Empty
   \<and> PlaceStone b 7 7 = Inr (b1, None) \<and> GameFinished b1 \<and> CurrentTurn b1 = Black
   \<and> Undo b1 = Inr (b2, None) \<and> CurrentTurn b2 = White
   \<and> Grid b2 = Grid b \<and> MoveHistory b2 = MoveHistory b \<and> \<not> GameFinished b2"
  by (simp add: board_eval fun_eq_iff)

section \<open>Double three and open three\<close>

lemma walks_agree:
  "doubleThreeWalk g p row col dr dc steps (count, space, blocked) = (c', s', b') \<Longrightarrow>
   openWalk g p row col dr dc steps (count, space) = (c', s')
   \<and> ((s' = space \<and> b' = blocked) \<or> (s' = space + 1 \<and> b' = blocked)
        \<or> (s' = space \<and> b' = blocked + 1))"
proof (induction steps arbitrary: count)
  case Nil
  then show ?case by simp
next
  case (Cons i steps)
  then show ?case
    by (auto simp: Let_def split: if_splits)
qed

lemma doubleThreeAxis_eq: "doubleThreeAxis g p row col dir = openThreeAxis g p row col dir"
proof -
  obtain c1 s1 b1 where
    w1: "doubleThreeWalk g p row col (fst dir) (snd dir) [1 .. 3] (1, 0, 0) = (c1, s1, b1)"
    by (metis prod_cases3)
  obtain c2 s2 b2 where
    w2: "doubleThreeWalk g p row col (- fst dir) (- snd dir) [1 .. 3] (c1, s1, b1) = (c2, s2, b2)"
    by (metis prod_cases3)
  from walks_agree[OF w1] walks_agree[OF w2]
  show ?thesis
    unfolding doubleThreeAxis_def openThreeAxis_def Let_def w1 w2
    by auto
qed

lemma doubleThreeDirs_count:
  "doubleThreeDirs g p row col dirs n = n + int (length (filter (openThreeAxis g p row col) dirs))"
  by (induction dirs arbitrary: n) (simp_all add: doubleThreeAxis_eq)

lemma openThreeDirs_ex:
  "openThreeDirs g p row col dirs \<longleftrightarrow> (\<exists>dir \<in> set dirs. openThreeAxis g p row col dir)"
  by (induction dirs) simp_all

lemma openFourDirs_ex:
  "openFourDirs g p row col dirs \<longleftrightarrow> (\<exists>dir \<in> set dirs. openFourAxis g p row col dir)"
  by (induction dirs) simp_all

lemma openWalk_step:
  "openWalk g p row col dr dc (i # steps) (count, space) =
     (if \<not> isValidPosition (row + dr * i) (col + dc * i) then (count, space)
      else if g (row + dr * i) (col + dc * i) = p
        then openWalk g p row col dr dc steps (count + 1, space)
      else if g (row + dr * i) (col + dc * i) = Empty then (count, space + 1)
      else (count, space))"
  by (simp add: Let_def)

lemma openWalk_run:
  assumes "p \<noteq> Empty"
  shows "openWalk g p row col dr dc [1, 2, 3] (count, space)
     = (let f = runLength (Suc (Suc (Suc m))) g p row col dr dc
        in (count + int (min 3 f),
            space + (if f < 3 \<and> emptyAt g (row + dr * (int f + 1)) (col + dc * (int f + 1))
                     then 1 else 0)))"
proof -
  have "runLength (Suc (Suc (Suc m))) g p row col dr dc
      = runLength (Suc (Suc (Suc m))) g p (row + dr * 0) (col + dc * 0) dr dc"
    by simp
  also have "\<dots> =
     (if isValidPosition (row + dr * 1) (col + dc * 1) \<and> g (row + dr * 1) (col + dc * 1) = p
      then Suc (if isValidPosition (row + dr * 2) (col + dc * 2) \<and> g (row + dr * 2) (col + dc * 2) = p
      then Suc (if isValidPosition (row + dr * 3) (col + dc * 3) \<and> g (row + dr * 3) (col + dc * 3) = p
      then Suc (runLength m g p (row + dr * 3) (col + dc * 3) dr dc) else 0) else 0) else 0)"
    using runLength_shift[of "Suc (Suc m)" g p row dr 0 col dc]
          runLength_shift[of "Suc m" g p row dr 1 col dc]
          runLength_shift[of "m" g p row dr 2 col dc]
    by simp
  finally show ?thesis using assms
    by (simp add: openWalk_step emptyAt_def Let_def)
qed

lemma openThreeAxis_shape:
  assumes "g row col \<noteq> Empty"
  shows "openThreeAxis g (g row col) row col dir = openThreeShape g row col dir"
proof -
  have n: "nat BoardSize = Suc (Suc (Suc 12))"
    by (simp add: BoardSize_def)
  have st: "[1 .. 3] = [1, 2, 3::int]"
    by (simp add: upto_rec1)
  have neg: "\<And>x y z::int. x + - y * z = x - y * z"
    by simp
  show ?thesis
    unfolding openThreeAxis_def openThreeShape_def runThrough_def st n
      openWalk_run[OF assms, where m = 12] Let_def
    by (auto simp: neg min_def split: if_splits)
qed

text \<open>
  Claim C8.  At a cell of the board holding a stone, \<open>hasDoubleThree\<close> returns true
  exactly when at least two of the four axes pass the test that \<open>hasOpenThree\<close> makes
  for one axis; \<open>hasOpenThree\<close> returns true when at least one does.  The test made
  inside \<open>hasDoubleThree\<close> (count 3, space 2, blocked 0) is the same predicate as the
  one inside \<open>hasOpenThree\<close> (count 3, space 2), and both say: the run through the cell
  has exactly three cells and the cell beyond each end is an empty cell of the board.
\<close>

theorem hasDoubleThree_two_open_threes:
  assumes "isValidPosition row col" and "Grid b row col \<noteq> Empty"
  shows "hasDoubleThree b row col
           = Inr (2 \<le> length (filter (openThreeAxis (Grid b) (Grid b row col) row col) directions))
     \<and> hasOpenThree b row col
           = Inr (\<exists>dir \<in> set directions. openThreeAxis (Grid b) (Grid b row col) row col dir)
     \<and> (\<forall>dir. doubleThreeAxis (Grid b) (Grid b row col) row col dir
              = openThreeAxis (Grid b) (Grid b row col) row col dir)
     \<and> (\<forall>dir. openThreeAxis (Grid b) (Grid b row col) row col dir
              = openThreeShape (Grid b) row col dir)"
  using assms
  by (simp add: hasDoubleThree_def hasOpenThree_def doubleThreeDirs_count openThreeDirs_ex
      doubleThreeAxis_eq openThreeAxis_shape)

theorem hasDoubleThree_two_open_threes_witness:
  "isValidPosition 7 7 \<and> Grid crossOfThrees 7 7 \<noteq> Empty \<and> Grid singleThree 7 7 \<noteq> Empty
   \<and> hasDoubleThree crossOfThrees 7 7 = Inr True
   \<and> 2 \<le> length (filter (openThreeAxis (Grid crossOfThrees) (Grid crossOfThrees 7 7) 7 7) directions)
   \<and> hasDoubleThree singleThree 7 7 = Inr False
   \<and> hasOpenThree singleThree 7 7 = Inr True
   \<and> \<not> 2 \<le> length (filter (openThreeAxis (Grid singleThree) (Grid singleThree 7 7) 7 7) directions)
   \<and> (\<exists>dir \<in> set directions. openThreeAxis (Grid singleThree) (Grid singleThree 7 7) 7 7 dir)"
proof -
  have h: "isValidPosition 7 7" "Grid crossOfThrees 7 7 \<noteq> Empty"
    and h': "isValidPosition 7 7" "Grid singleThree 7 7 \<noteq> Empty"
    by (simp_all add: isValidPosition_def BoardSize_def crossOfThrees_def singleThree_def
        NewBoard_def setCell_def)
  have e: "hasDoubleThree crossOfThrees 7 7 = Inr True"
    "hasDoubleThree singleThree 7 7 = Inr False" "hasOpenThree singleThree 7 7 = Inr True"
    by (simp_all add: hasDoubleThree_def hasOpenThree_def doubleThreeAxis_def openThreeAxis_def
        crossOfThrees_def singleThree_def directions_def isValidPosition_def BoardSize_def
        NewBoard_def setCell_def upto_rec1 Let_def)
  show ?thesis
    using hasDoubleThree_two_open_threes[OF h] hasDoubleThree_two_open_threes[OF h'] h h' e
    by simp
qed

section \<open>The agent leaves the board as it found it\<close>

lemma restore_cell: "Grid b i j = Empty \<Longrightarrow> b\<lparr>Grid := setCell (setCell (Grid b) i j p) i j Empty\<rparr> = b"
  by (simp add: setCell_restore)

lemma bindP_Inr: "bindP m f = Inr y \<longleftrightarrow> (\<exists>x. m = Inr x \<and> f x = Inr y)"
  by (cases m) (simp_all add: bindP_def)

lemma speculativeScan_result:
  "speculativeScan test b p cells = Inr (b', mv) \<Longrightarrow>
     b' = b \<and> (mv = (-1, -1) \<or> (mv \<in> set cells \<and> Grid b (fst mv) (snd mv) = Empty))"
proof (induction cells)
  case Nil
  then show ?case by simp
next
  case (Cons cell cells)
  obtain i j where c: "cell = (i, j)" by (cases cell)
  show ?case
  proof (cases "Grid b i j = Empty")
    case False
    with Cons c show ?thesis by auto
  next
    case True
    with Cons.prems c Cons.IH show ?thesis
      by (auto simp: Let_def restore_cell split: sum.splits if_splits)
  qed
qed

lemma setCell_twice: "setCell (setCell g i j p) i j q = setCell g i j q"
  by (simp add: setCell_def)

lemma setCell_idem: "g i j = v \<Longrightarrow> setCell g i j v = g"
  by (auto simp: setCell_def fun_eq_iff)

lemma evaluatePosition_keeps:
  "evaluatePosition ai b row col = Inr (b', s) \<Longrightarrow> Grid b row col = Empty \<Longrightarrow> b' = b"
  by (auto simp: evaluatePosition_def bindP_Inr Let_def setCell_twice setCell_idem split: if_splits)

lemma evaluatePositionMedium_keeps:
  assumes "evaluatePositionMedium ai b row col = Inr (b', s)" and "Grid b row col = Empty"
  shows "b' = b"
proof -
  from assms(1) obtain b0 s0 where e: "evaluatePosition ai b row col = Inr (b0, s0)"
    by (auto simp: evaluatePositionMedium_def bindP_Inr)
  from evaluatePosition_keeps[OF e assms(2)] have b0: "b0 = b" .
  from assms show ?thesis
    unfolding evaluatePositionMedium_def e b0
    by (auto simp: bindP_Inr Let_def setCell_twice setCell_idem)
qed

lemma evaluatePositionHard_keeps:
  assumes "evaluatePositionHard ai b row col = Inr (b', s)" and "Grid b row col = Empty"
  shows "b' = b"
proof -
  from assms(1) obtain b0 s0 where e: "evaluatePosition ai b row col = Inr (b0, s0)"
    by (auto simp: evaluatePositionHard_def bindP_Inr)
  from evaluatePosition_keeps[OF e assms(2)] have b0: "b0 = b" .
  from assms show ?thesis
    unfolding evaluatePositionHard_def e b0
    by (auto simp: bindP_Inr Let_def setCell_twice setCell_idem)
qed

lemma easyWeight_keeps:
  "easyWeight ai b lr lc i j = Inr (b', w) \<Longrightarrow> Grid b i j = Empty \<Longrightarrow> b' = b"
  by (auto simp: easyWeight_def bindP_Inr Let_def dest: evaluatePosition_keeps)

lemma collectMoves_keeps:
  "collectMoves ai b lr lc cells moves = Inr (b', moves') \<Longrightarrow> b' = b"
proof (induction cells arbitrary: moves)
  case Nil
  then show ?case by simp
next
  case (Cons cell cells)
  obtain i j where c: "cell = (i, j)" by (cases cell)
  show ?case
  proof (cases "Grid b i j = Empty")
    case False
    with Cons c show ?thesis by auto
  next
    case True
    from Cons.prems c True obtain b1 w where
      w: "easyWeight ai b lr lc i j = Inr (b1, w)"
      and r: "collectMoves ai b1 lr lc cells (moves @ [(i, j, w)]) = Inr (b', moves')"
      by (auto split: sum.splits)
    from easyWeight_keeps[OF w True] have "b1 = b" .
    with r Cons.IH show ?thesis by simp
  qed
qed

lemma bestScoreScan_keeps:
  assumes ev: "\<And>i j b' s. eval b i j = Inr (b', s) \<Longrightarrow> Grid b i j = Empty \<Longrightarrow> b' = b"
  shows "bestScoreScan eval b cells acc = Inr (b', mv) \<Longrightarrow> b' = b"
proof (induction cells arbitrary: acc)
  case Nil
  then show ?case by (cases acc) simp
next
  case (Cons cell cells)
  obtain i j where c: "cell = (i, j)" by (cases cell)
  obtain bs bm where a: "acc = (bs, bm)" by (cases acc)
  show ?case
  proof (cases "Grid b i j = Empty")
    case False
    with Cons c a show ?thesis by auto
  next
    case True
    from Cons.prems c a True obtain b1 s where
      w: "eval b i j = Inr (b1, s)"
      and r: "bestScoreScan eval b1 cells (if s > bs then (s, (i, j)) else (bs, bm)) = Inr (b', mv)"
      by (auto split: sum.splits if_splits)
    from ev[OF w True] have "b1 = b" .
    with r Cons.IH show ?thesis by simp
  qed
qed


lemma keeps_bindP:
  assumes "keeps b m" and "\<And>x. keeps b (f (b, x))"
  shows "keeps b (bindP m f)"
proof -
  { fix b' y assume "bindP m f = Inr (b', y)"
    then obtain x where m: "m = Inr x" and f: "f x = Inr (b', y)"
      unfolding bindP_Inr by blast
    obtain b1 x1 where x: "x = (b1, x1)" by (cases x)
    from assms(1) m x have "b1 = b" by (simp add: keeps_def)
    with assms(2)[of x1] f x have "b' = b" by (simp add: keeps_def) }
  then show ?thesis by (auto simp: keeps_def)
qed

lemma keeps_Inr [simp]: "keeps b (Inr (b', x)) \<longleftrightarrow> b' = b"
  by (auto simp: keeps_def)

lemma keeps_Inl [simp]: "keeps b (Inl e)"
  by (simp add: keeps_def)

lemma keeps_scan: "keeps b (speculativeScan test b p cells)"
  unfolding keeps_def using speculativeScan_result by blast

lemma keeps_find:
  "keeps b (findWinningMove b p)" "keeps b (findOpenFourMove b p)"
  "keeps b (findOpenThreeMove b p)" "keeps b (findAdvancedThreatMove b p)"
  by (simp_all add: findWinningMove_def findOpenFourMove_def findOpenThreeMove_def
      findAdvancedThreatMove_def keeps_scan)

lemma keeps_collectMoves: "keeps b (collectMoves ai b lr lc cells moves)"
  unfolding keeps_def using collectMoves_keeps by blast

lemma keeps_bestMedium: "keeps b (bestScoreScan (evaluatePositionMedium ai) b cells acc)"
  unfolding keeps_def using bestScoreScan_keeps[of "evaluatePositionMedium ai" b cells acc]
    evaluatePositionMedium_keeps by blast

lemma keeps_bestHard: "keeps b (bestScoreScan (evaluatePositionHard ai) b cells acc)"
  unfolding keeps_def using bestScoreScan_keeps[of "evaluatePositionHard ai" b cells acc]
    evaluatePositionHard_keeps by blast

lemma keeps_Intn: "(\<And>x. keeps b (f x)) \<Longrightarrow> keeps b (bindP (Intn rnd n) f)"
  unfolding keeps_def bindP_Inr by blast

lemma keeps_easyCandidates: "keeps b (easyCandidates ai b)"
  unfolding easyCandidates_def
  by (auto intro!: keeps_bindP keeps_collectMoves simp: Let_def split: prod.splits)

lemma keeps_easyPrelude: "keeps b (easyPrelude ai b)"
  unfolding easyPrelude_def
  by (auto intro!: keeps_bindP keeps_find keeps_easyCandidates
      simp: Let_def split: prod.splits)

lemma keeps_makeEasyMove: "keeps b (makeEasyMove ai b rnd)"
  unfolding makeEasyMove_def
  by (auto intro!: keeps_bindP keeps_easyPrelude keeps_Intn
      simp: Let_def split: prod.splits option.splits easyStage.splits)

lemma keeps_makeMediumMove: "keeps b (makeMediumMove ai b rnd)"
  unfolding makeMediumMove_def
  by (auto intro!: keeps_bindP keeps_find keeps_bestMedium keeps_makeEasyMove
      simp: Let_def split: prod.splits)

lemma keeps_makeHardMove: "keeps b (makeHardMove ai b rnd)"
  unfolding makeHardMove_def
  by (auto intro!: keeps_bindP keeps_find keeps_bestHard keeps_makeMediumMove
      simp: Let_def split: prod.splits)

lemma keeps_MakeMove: "keeps b (MakeMove ai b rnd)"
  unfolding MakeMove_def
  by (cases "difficulty ai") (simp_all add: keeps_makeEasyMove keeps_makeMediumMove keeps_makeHardMove)

lemma allCells_head: "allCells = (0, 0) # tl allCells"
  by (simp add: allCells_def cellsIn_def BoardSize_def upto_rec1)

lemma scan_first:
  "\<exists>b'. findWinningMove whiteToWin White = Inr (b', (0, 0))"
  unfolding findWinningMove_def
  by (subst allCells_head) (simp add: whiteToWin_def board_eval)

text \<open>
  Claim C3.  Whatever the difficulty and the number drawn, when \<open>MakeMove\<close> returns
  the board is the one it was given: grid, turn, history and finished flag.  The same
  holds for each scan with a speculative stone, and for the three scoring functions
  when they are called on an empty cell, as the strategies do.
\<close>

theorem MakeMove_leaves_board:
  "(\<forall>b' mv. MakeMove ai b rnd = Inr (b', mv) \<longrightarrow> b' = b)
   \<and> (\<forall>p b' mv. findWinningMove b p = Inr (b', mv) \<longrightarrow> b' = b)
   \<and> (\<forall>p b' mv. findOpenFourMove b p = Inr (b', mv) \<longrightarrow> b' = b)
   \<and> (\<forall>p b' mv. findOpenThreeMove b p = Inr (b', mv) \<longrightarrow> b' = b)
   \<and> (\<forall>p b' mv. findAdvancedThreatMove b p = Inr (b', mv) \<longrightarrow> b' = b)
   \<and> (\<forall>row col b' s. Grid b row col = Empty \<longrightarrow>
         evaluatePosition ai b row col = Inr (b', s) \<longrightarrow> b' = b)
   \<and> (\<forall>row col b' s. Grid b row col = Empty \<longrightarrow>
         evaluatePositionMedium ai b row col = Inr (b', s) \<longrightarrow> b' = b)
   \<and> (\<forall>row col b' s. Grid b row col = Empty \<longrightarrow>
         evaluatePositionHard ai b row col = Inr (b', s) \<longrightarrow> b' = b)"
proof (intro conjI allI impI)
  fix b' :: Board and mv :: "int \<times> int" and p
  show "MakeMove ai b rnd = Inr (b', mv) \<Longrightarrow> b' = b"
    using keeps_MakeMove[of b ai rnd] by (simp add: keeps_def)
  show "findWinningMove b p = Inr (b', mv) \<Longrightarrow> b' = b"
    using keeps_find(1)[of b p] by (simp add: keeps_def)
  show "findOpenFourMove b p = Inr (b', mv) \<Longrightarrow> b' = b"
    using keeps_find(2)[of b p] by (simp add: keeps_def)
  show "findOpenThreeMove b p = Inr (b', mv) \<Longrightarrow> b' = b"
    using keeps_find(3)[of b p] by (simp add: keeps_def)
  show "findAdvancedThreatMove b p = Inr (b', mv) \<Longrightarrow> b' = b"
    using keeps_find(4)[of b p] by (simp add: keeps_def)
next
  fix row col b' s
  assume "Grid b row col = Empty"
  then show "evaluatePosition ai b row col = Inr (b', s) \<Longrightarrow> b' = b"
    and "evaluatePositionMedium ai b row col = Inr (b', s) \<Longrightarrow> b' = b"
    and "evaluatePositionHard ai b row col = Inr (b', s) \<Longrightarrow> b' = b"
    by (blast dest: evaluatePosition_keeps evaluatePositionMedium_keeps evaluatePositionHard_keeps)+
qed

theorem MakeMove_leaves_board_witness:
  "MakeMove (NewAI White Hard) whiteToWin 0 = Inr (whiteToWin, (0, 0))
   \<and> MakeMove (NewAI White Medium) whiteToWin 0 = Inr (whiteToWin, (0, 0))
   \<and> MakeMove (NewAI White Easy) whiteToWin 0 = Inr (whiteToWin, (0, 0))"
proof -
  from scan_first obtain b1 where f: "findWinningMove whiteToWin White = Inr (b1, (0, 0))" ..
  have h: "MakeMove (NewAI White Hard) whiteToWin 0 = Inr (b1, (0, 0))"
    and m: "MakeMove (NewAI White Medium) whiteToWin 0 = Inr (b1, (0, 0))"
    and e: "MakeMove (NewAI White Easy) whiteToWin 0 = Inr (b1, (0, 0))"
    by (simp_all add: MakeMove_def makeHardMove_def makeMediumMove_def makeEasyMove_def
        easyPrelude_def NewAI_def f bindP_def)
  have "\<forall>b' mv. MakeMove (NewAI White Hard) whiteToWin 0 = Inr (b', mv) \<longrightarrow> b' = whiteToWin"
    using MakeMove_leaves_board[of "NewAI White Hard" whiteToWin 0] by (rule conjunct1)
  with h have "b1 = whiteToWin"
    by simp
  with h m e show ?thesis by simp
qed

section \<open>The base score\<close>

lemma evaluatePosition_value:
  assumes "isValidPosition row col" and "Grid b row col = Empty"
  shows "evaluatePosition ai b row col = Inr (b,
     if winsWith b row col (player ai) then 10000
     else if winsWith b row col (getOpponent ai) then 9000
     else sumDirections ai b row col directions 0
          - manhattan row col (BoardSize div 2) (BoardSize div 2) * 10
          - (if MoveHistory b \<noteq> [] then
               manhattan row col (fst (last (MoveHistory b))) (snd (last (MoveHistory b))) * 5
             else 0))"
  using assms
  by (simp add: evaluatePosition_def bindP_def Let_def winsWith_def CheckWin_def
      setCell_twice setCell_idem)

lemma scanWindow_fold:
  "scanWindow ai g row col dr dc offs s =
     foldl (\<lambda>s x. scanCell ai x s) s
       (map (\<lambda>i. g (row + dr * i) (col + dc * i))
         (filter (\<lambda>i. isValidPosition (row + dr * i) (col + dc * i)) offs))"
proof (induction offs arbitrary: s)
  case Nil
  then show ?case by simp
next
  case (Cons i offs)
  show ?case
  proof (cases "isValidPosition (row + dr * i) (col + dc * i)")
    case True
    then show ?thesis
      using Cons.IH by (simp add: Let_def isValidPosition_def not_le not_less)
  next
    case False
    then show ?thesis
      using Cons.IH by (auto simp: Let_def isValidPosition_def not_le not_less)
  qed
qed

lemma sumDirections_sum:
  "sumDirections ai b row col dirs acc =
     acc + (\<Sum>dir \<leftarrow> dirs. evaluateDirection ai b row col (fst dir) (snd dir))"
  by (induction dirs arbitrary: acc) simp_all

lemma scan_myCount:
  "myCount (foldl (\<lambda>s x. scanCell ai x s) s xs)
     = myCount s + int (length (filter (\<lambda>x. x = player ai) xs))"
  by (induction xs arbitrary: s) (simp_all add: scanCell_def Let_def)

lemma scan_emptyCells:
  "emptyCells (foldl (\<lambda>s x. scanCell ai x s) s xs)
     = emptyCells s + int (length (filter (\<lambda>x. x \<noteq> player ai \<and> x = Empty) xs))"
  by (induction xs arbitrary: s) (simp_all add: scanCell_def Let_def)

lemma takeWhile_le_longestRun: "length (takeWhile P xs) \<le> longestRun P xs"
  by (cases xs) simp_all

lemma scan_maxMySeq:
  "0 \<le> currentMySeq s \<Longrightarrow> currentMySeq s \<le> maxMySeq s \<Longrightarrow>
   maxMySeq (foldl (\<lambda>s x. scanCell ai x s) s xs)
     = max (maxMySeq s)
         (max (currentMySeq s + int (length (takeWhile (\<lambda>x. x = player ai) xs)))
              (int (longestRun (\<lambda>x. x = player ai) xs)))"
proof (induction xs arbitrary: s)
  case Nil
  then show ?case by simp
next
  case (Cons x xs)
  let ?s = "scanCell ai x s"
  show ?case
  proof (cases "x = player ai")
    case True
    have inv: "0 \<le> currentMySeq ?s" "currentMySeq ?s \<le> maxMySeq ?s"
      and v: "currentMySeq ?s = currentMySeq s + 1" "maxMySeq ?s = max (maxMySeq s) (currentMySeq s + 1)"
      using Cons.prems True by (auto simp: scanCell_def Let_def)
    show ?thesis
      using Cons.IH[OF inv] True Cons.prems takeWhile_le_longestRun[of "\<lambda>x. x = player ai" xs]
      unfolding v by simp
  next
    case False
    have inv: "0 \<le> currentMySeq ?s" "currentMySeq ?s \<le> maxMySeq ?s"
      and v: "currentMySeq ?s = 0" "maxMySeq ?s = maxMySeq s"
      using Cons.prems False by (auto simp: scanCell_def Let_def)
    show ?thesis
      using Cons.IH[OF inv] False Cons.prems takeWhile_le_longestRun[of "\<lambda>x. x = player ai" xs]
      unfolding v by simp
  qed
qed

lemma scan_maxOppSeq:
  "0 \<le> currentOppSeq s \<Longrightarrow> currentOppSeq s \<le> maxOppSeq s \<Longrightarrow>
   maxOppSeq (foldl (\<lambda>s x. scanCell ai x s) s xs)
     = max (maxOppSeq s)
         (max (currentOppSeq s + int (length (takeWhile (\<lambda>x. x \<noteq> player ai \<and> x \<noteq> Empty) xs)))
              (int (longestRun (\<lambda>x. x \<noteq> player ai \<and> x \<noteq> Empty) xs)))"
proof (induction xs arbitrary: s)
  case Nil
  then show ?case by simp
next
  case (Cons x xs)
  let ?s = "scanCell ai x s"
  let ?P = "\<lambda>x. x \<noteq> player ai \<and> x \<noteq> Empty"
  show ?case
  proof (cases "?P x")
    case True
    have inv: "0 \<le> currentOppSeq ?s" "currentOppSeq ?s \<le> maxOppSeq ?s"
      and v: "currentOppSeq ?s = currentOppSeq s + 1" "maxOppSeq ?s = max (maxOppSeq s) (currentOppSeq s + 1)"
      using Cons.prems True by (auto simp: scanCell_def Let_def)
    show ?thesis
      using Cons.IH[OF inv] True Cons.prems takeWhile_le_longestRun[of ?P xs]
      unfolding v by simp
  next
    case False
    have inv: "0 \<le> currentOppSeq ?s" "currentOppSeq ?s \<le> maxOppSeq ?s"
      and v: "currentOppSeq ?s = 0" "maxOppSeq ?s = maxOppSeq s"
      using Cons.prems False by (auto simp: scanCell_def Let_def)
    show ?thesis
      using Cons.IH[OF inv] False Cons.prems takeWhile_le_longestRun[of ?P xs]
      unfolding v by (auto simp: max_def)
  qed
qed

lemma opp_pred:
  assumes "player ai = Black \<or> player ai = White"
  shows "(\<lambda>x. x \<noteq> player ai \<and> x \<noteq> Empty) = (\<lambda>x. x = getOpponent ai)"
    and "(\<lambda>x. x \<noteq> player ai \<and> x = Empty) = (\<lambda>x. x = Empty)"
proof -
  show "(\<lambda>x. x \<noteq> player ai \<and> x \<noteq> Empty) = (\<lambda>x. x = getOpponent ai)"
  proof
    fix x show "(x \<noteq> player ai \<and> x \<noteq> Empty) = (x = getOpponent ai)"
      using assms by (cases x) (auto simp: getOpponent_def)
  qed
  show "(\<lambda>x. x \<noteq> player ai \<and> x = Empty) = (\<lambda>x. x = Empty)"
    using assms by auto
qed

lemma evaluateDirection_score:
  assumes "player ai = Black \<or> player ai = White"
  shows "evaluateDirection ai b row col (fst dir) (snd dir) = directionScore ai (Grid b) row col dir"
proof -
  let ?init = "\<lparr>myCount = 0, oppCount = 0, emptyCells = 0, maxMySeq = 0, maxOppSeq = 0,
        currentMySeq = 0, currentOppSeq = 0\<rparr>"
  let ?w = "windowCells (Grid b) row col dir"
  let ?s = "foldl (\<lambda>s x. scanCell ai x s) ?init ?w"
  have sw: "scanWindow ai (Grid b) row col (fst dir) (snd dir) [-4 .. 4] ?init = ?s"
    unfolding scanWindow_fold windowCells_def ..
  have my: "maxMySeq ?s = int (longestRun (\<lambda>x. x = player ai) ?w)"
    using scan_maxMySeq[of ?init ai ?w] takeWhile_le_longestRun[of "\<lambda>x. x = player ai" ?w]
    by simp
  have opp: "maxOppSeq ?s = int (longestRun (\<lambda>x. x = getOpponent ai) ?w)"
    using scan_maxOppSeq[of ?init ai ?w]
      takeWhile_le_longestRun[of "\<lambda>x. x \<noteq> player ai \<and> x \<noteq> Empty" ?w]
    unfolding opp_pred[OF assms] by simp
  have em: "emptyCells ?s = int (length (filter (\<lambda>x. x = Empty) ?w))"
    using scan_emptyCells[of ai ?init ?w] unfolding opp_pred[OF assms] by simp
  have cnt: "myCount ?s = int (length (filter (\<lambda>x. x = player ai) ?w))"
    using scan_myCount[of ai ?init ?w] by simp
  show ?thesis
    unfolding evaluateDirection_def sw scoreOfScan_def directionScore_def Let_def my opp em cnt
    by simp
qed

text \<open>
  Claim C7.  For an agent playing Black or White and an empty cell of the board,
  \<open>evaluatePosition\<close> leaves the board as it is and returns: 10000 if the agent's
  stone on the cell passes the win test; else 9000 if the opponent's stone does; else
  the sum over the four axes of the score of the window (2000 for a longest own run of
  at least 4, else 1000 for exactly 3 with at least 2 empty cells, else 100 for exactly
  2 with at least 3 empty cells; plus 1500 for a longest opponent run of at least 3,
  else 200 for exactly 2 with at least 3 empty cells; plus 10 for each own stone and 2
  for each empty cell), minus 10 times the Manhattan distance to the centre, minus 5
  times the Manhattan distance to the last move when the history is not empty.
\<close>

theorem evaluatePosition_base_score:
  assumes "isValidPosition row col" and "Grid b row col = Empty"
    and "player ai = Black \<or> player ai = White"
  shows "evaluatePosition ai b row col = Inr (b, baseScore ai b row col)"
proof -
  have "sumDirections ai b row col directions 0
      = (\<Sum>dir \<leftarrow> directions. directionScore ai (Grid b) row col dir)"
    unfolding sumDirections_sum using evaluateDirection_score[OF assms(3)] by simp
  then show ?thesis
    unfolding evaluatePosition_value[OF assms(1,2)] baseScore_def by simp
qed

lemmas spec_eval = baseScore_def directionScore_def windowCells_def winsWith_def manhattan_def
  getOpponent_def NewAI_def CheckWin_def checkDirs.simps countLine.simps
  directions_def setCell_def isValidPosition_def BoardSize_def WinCondition_def upto_rec1 Let_def

theorem evaluatePosition_base_score_witness:
  "isValidPosition 2 2 \<and> Grid cornerStone 2 2 = Empty
   \<and> (player (NewAI White Easy) = Black \<or> player (NewAI White Easy) = White)
   \<and> evaluatePosition (NewAI White Easy) cornerStone 2 2 = Inr (cornerStone, -70)
   \<and> baseScore (NewAI White Easy) cornerStone 2 2 = -70
   \<and> isValidPosition 0 0 \<and> Grid whiteToWin 0 0 = Empty
   \<and> evaluatePosition (NewAI White Easy) whiteToWin 0 0 = Inr (whiteToWin, 10000)
   \<and> (player (NewAI Black Easy) = Black \<or> player (NewAI Black Easy) = White)
   \<and> evaluatePosition (NewAI Black Easy) whiteToWin 0 0 = Inr (whiteToWin, 9000)"
proof -
  have h: "isValidPosition 2 2" "Grid cornerStone 2 2 = Empty"
    "player (NewAI White Easy) = Black \<or> player (NewAI White Easy) = White"
    and h': "isValidPosition 0 0" "Grid whiteToWin 0 0 = Empty"
    and hb: "player (NewAI Black Easy) = Black \<or> player (NewAI Black Easy) = White"
    by (simp_all add: isValidPosition_def BoardSize_def cornerStone_def whiteToWin_def
        setCell_def NewAI_def)
  have s: "baseScore (NewAI White Easy) cornerStone 2 2 = -70"
    by (simp add: spec_eval cornerStone_def)
  have w: "baseScore (NewAI White Easy) whiteToWin 0 0 = 10000"
    by (simp add: spec_eval whiteToWin_def)
  have k: "baseScore (NewAI Black Easy) whiteToWin 0 0 = 9000"
    by (simp add: spec_eval whiteToWin_def)
  show ?thesis
    using evaluatePosition_base_score[OF h] evaluatePosition_base_score[OF h' h(3)]
      evaluatePosition_base_score[OF h' hb] h h' hb s w k
    by simp
qed

section \<open>Sparse boards\<close>

lemma runLength_ge1:
  "1 \<le> runLength n g p r c dr dc \<Longrightarrow> g (r + dr) (c + dc) = p"
  by (cases n) (auto split: if_splits)

lemma runLength_ge2:
  "2 \<le> runLength n g p r c dr dc \<Longrightarrow> g (r + dr) (c + dc) = p \<and> g (r + dr + dr) (c + dc + dc) = p"
proof (cases n)
  case 0
  then show "2 \<le> runLength n g p r c dr dc \<Longrightarrow> ?thesis" by simp
next
  case (Suc m)
  assume a: "2 \<le> runLength n g p r c dr dc"
  with Suc have 1: "g (r + dr) (c + dc) = p" and 2: "1 \<le> runLength m g p (r + dr) (c + dc) dr dc"
    by (auto split: if_splits)
  from runLength_ge1[OF 2] 1 show ?thesis by simp
qed

lemma few_stones_run:
  assumes one: "atMostOne p g" and dir: "dir \<in> set directions"
  shows "runThrough (setCell g i j p) i j dir \<le> 2"
proof -
  let ?g = "setCell g i j p"
  let ?F = "runLength (nat BoardSize) ?g p i j (fst dir) (snd dir)"
  let ?B = "runLength (nat BoardSize) ?g p i j (- fst dir) (- snd dir)"
  have nz: "fst dir \<noteq> 0 \<or> snd dir \<noteq> 0" using dir by (auto simp: directions_def)
  have other: "\<And>r c. (r, c) \<noteq> (i, j) \<Longrightarrow> ?g r c = p \<Longrightarrow> g r c = p"
    by (auto simp: setCell_def split: if_splits)
  have F: "?F \<le> 1"
  proof (rule ccontr)
    assume "\<not> ?F \<le> 1"
    then have "2 \<le> ?F" by simp
    from runLength_ge2[OF this] nz
    have "g (i + fst dir) (j + snd dir) = p" "g (i + fst dir + fst dir) (j + snd dir + snd dir) = p"
      by (auto intro!: other)
    with one have "i + fst dir = i + fst dir + fst dir \<and> j + snd dir = j + snd dir + snd dir"
      unfolding atMostOne_def by blast
    with nz show False by simp
  qed
  have B: "?B \<le> 1"
  proof (rule ccontr)
    assume "\<not> ?B \<le> 1"
    then have "2 \<le> ?B" by simp
    from runLength_ge2[OF this] nz
    have "g (i + - fst dir) (j + - snd dir) = p" "g (i + - fst dir + - fst dir) (j + - snd dir + - snd dir) = p"
      by (auto intro!: other)
    with one have "i + - fst dir = i + - fst dir + - fst dir \<and> j + - snd dir = j + - snd dir + - snd dir"
      unfolding atMostOne_def by blast
    with nz show False by simp
  qed
  have FB: "\<not> (1 \<le> ?F \<and> 1 \<le> ?B)"
  proof
    assume a: "1 \<le> ?F \<and> 1 \<le> ?B"
    then have a1: "1 \<le> ?F" and a2: "1 \<le> ?B" by simp_all
    from runLength_ge1[OF a1] runLength_ge1[OF a2] nz
    have "g (i + fst dir) (j + snd dir) = p" "g (i + - fst dir) (j + - snd dir) = p"
      by (auto intro!: other)
    with one have "i + fst dir = i + - fst dir \<and> j + snd dir = j + - snd dir"
      unfolding atMostOne_def by blast
    with nz show False by simp
  qed
  have self: "?g i j = p" by (simp add: setCell_def)
  show ?thesis
    unfolding runThrough_def self using F B FB by linarith
qed


lemma allCells_valid: "(i, j) \<in> set allCells \<Longrightarrow> isValidPosition i j"
  by (auto simp: allCells_def cellsIn_def isValidPosition_def)

lemma cellsIn_valid:
  "0 \<le> minRow \<Longrightarrow> maxRow < BoardSize \<Longrightarrow> 0 \<le> minCol \<Longrightarrow> maxCol < BoardSize \<Longrightarrow>
   (i, j) \<in> set (cellsIn minRow maxRow minCol maxCol) \<Longrightarrow> isValidPosition i j"
  by (auto simp: cellsIn_def isValidPosition_def)

lemma few_stones_no_win:
  assumes "atMostOne p (Grid b)" and "isValidPosition i j"
  shows "CheckWin (b\<lparr>Grid := setCell (Grid b) i j p\<rparr>) i j = Inr False"
proof -
  have "\<not> (\<exists>dir \<in> set directions. 5 \<le> runThrough (setCell (Grid b) i j p) i j dir)"
  proof
    assume "\<exists>dir \<in> set directions. 5 \<le> runThrough (setCell (Grid b) i j p) i j dir"
    then obtain dir where d: "dir \<in> set directions"
      and r: "5 \<le> runThrough (setCell (Grid b) i j p) i j dir"
      by blast
    from few_stones_run[OF assms(1) d, of i j] r show False by simp
  qed
  moreover have "setCell (Grid b) i j p i j = p" by (simp add: setCell_def)
  ultimately show ?thesis
    using assms(2) checkDirs_run[of "setCell (Grid b) i j p" i j directions]
    by (simp add: CheckWin_def)
qed

lemma few_stones_scan:
  assumes "atMostOne p (Grid b)" and "\<forall>(i, j) \<in> set cells. isValidPosition i j"
  shows "speculativeScan CheckWin b p cells = Inr (b, (-1, -1))"
  using assms(2)
proof (induction cells)
  case Nil
  then show ?case by simp
next
  case (Cons cell cells)
  obtain i j where c: "cell = (i, j)" by (cases cell)
  with Cons.prems have v: "isValidPosition i j" by simp
  from Cons have IH: "speculativeScan CheckWin b p cells = Inr (b, (-1, -1))" by simp
  show ?case
    unfolding c using IH few_stones_no_win[OF assms(1) v]
    by (simp add: Let_def setCell_restore)
qed

lemma few_stones_findWinningMove:
  "atMostOne p (Grid b) \<Longrightarrow> findWinningMove b p = Inr (b, (-1, -1))"
  unfolding findWinningMove_def
  by (rule few_stones_scan) (auto simp: allCells_valid)

lemma threatWalk_count:
  "threatWalk g opp i j dr dc [1, 2, 3] (c0, b0) = (c1, b1) \<Longrightarrow>
     c0 \<le> c1 \<and> (c0 + 1 \<le> c1 \<longrightarrow> g (i + dr) (j + dc) = opp)
     \<and> (c0 + 2 \<le> c1 \<longrightarrow> g (i + dr * 2) (j + dc * 2) = opp)"
  by (auto simp: Let_def split: if_splits)

lemma few_stones_threatDirs:
  assumes one: "atMostOne opp g" and dirs: "set dirs \<subseteq> set directions"
  shows "\<not> threatDirs g opp i j dirs"
  using dirs
proof (induction dirs)
  case Nil
  then show ?case by simp
next
  case (Cons dir dirs)
  then have d: "dir \<in> set directions" and IH: "\<not> threatDirs g opp i j dirs" by simp_all
  have nz: "fst dir \<noteq> 0 \<or> snd dir \<noteq> 0" using d by (auto simp: directions_def)
  have st: "[1 .. 3] = [1, 2, 3::int]" by (simp add: upto_rec1)
  obtain c1 b1 where w1: "threatWalk g opp i j (fst dir) (snd dir) [1, 2, 3] (0, 0) = (c1, b1)"
    by (metis surj_pair)
  obtain c2 b2 where w2: "threatWalk g opp i j (- fst dir) (- snd dir) [1, 2, 3] (c1, b1) = (c2, b2)"
    by (metis surj_pair)
  note f1 = threatWalk_count[OF w1] and f2 = threatWalk_count[OF w2]
  have "c2 < 2"
  proof (rule ccontr)
    assume "\<not> c2 < 2"
    then have c: "2 \<le> c2" by simp
    consider "2 \<le> c1" | "c1 = 1" "c1 + 1 \<le> c2" | "c1 = 0" "c1 + 2 \<le> c2"
      using c f1 f2 by linarith
    then show False
    proof cases
      case 1
      with f1 have "g (i + fst dir) (j + snd dir) = opp" "g (i + fst dir * 2) (j + snd dir * 2) = opp"
        by simp_all
      with one have "i + fst dir = i + fst dir * 2 \<and> j + snd dir = j + snd dir * 2"
        unfolding atMostOne_def by blast
      with nz show False by simp
    next
      case 2
      with f1 f2 have "g (i + fst dir) (j + snd dir) = opp" "g (i + - fst dir) (j + - snd dir) = opp"
        by simp_all
      with one have "i + fst dir = i + - fst dir \<and> j + snd dir = j + - snd dir"
        unfolding atMostOne_def by blast
      with nz show False by simp
    next
      case 3
      with f2 have "g (i + - fst dir) (j + - snd dir) = opp" "g (i + - fst dir * 2) (j + - snd dir * 2) = opp"
        by simp_all
      with one have "i + - fst dir = i + - fst dir * 2 \<and> j + - snd dir = j + - snd dir * 2"
        unfolding atMostOne_def by blast
      with nz show False by simp
    qed
  qed
  then show ?case
    using IH by (simp add: st w1 w2 Let_def del: threatWalk.simps)
qed

lemma few_stones_threatCells:
  "atMostOne opp g \<Longrightarrow> threatCells g opp cells = (-1, -1)"
  by (induction cells) (auto simp: few_stones_threatDirs)

lemma few_stones_findThreatsMove:
  "atMostOne (getOpponent ai) (Grid b) \<Longrightarrow> findThreatsMove ai b = (-1, -1)"
  by (simp add: findThreatsMove_def few_stones_threatCells)

lemma evaluatePosition_total:
  assumes "isValidPosition row col"
  shows "\<exists>b' s. evaluatePosition ai b row col = Inr (b', s)"
  using assms by (auto simp: evaluatePosition_def CheckWin_def bindP_def Let_def setCell_def)

lemma easyWeight_total:
  assumes "isValidPosition i j" and "Grid b i j = Empty"
  shows "\<exists>w. easyWeight ai b lr lc i j = Inr (b, w)"
proof -
  from evaluatePosition_total[OF assms(1)] obtain b' s where
    e: "evaluatePosition ai b i j = Inr (b', s)" by blast
  from evaluatePosition_keeps[OF e assms(2)] have "b' = b" .
  with e show ?thesis by (simp add: easyWeight_def bindP_def Let_def)
qed

lemma collectMoves_result:
  assumes "\<forall>(i, j) \<in> set cells. isValidPosition i j"
  shows "\<exists>moves'. collectMoves ai b lr lc cells moves = Inr (b, moves')
     \<and> set moves' = set moves \<union>
          {(i, j, w). (i, j) \<in> set cells \<and> Grid b i j = Empty \<and> easyWeight ai b lr lc i j = Inr (b, w)}"
  using assms
proof (induction cells arbitrary: moves)
  case Nil
  then show ?case by simp
next
  case (Cons cell cells)
  obtain i j where c: "cell = (i, j)" by (cases cell)
  from Cons.prems c have v: "isValidPosition i j" and vs: "\<forall>(i, j) \<in> set cells. isValidPosition i j"
    by simp_all
  show ?case
  proof (cases "Grid b i j = Empty")
    case False
    from Cons.IH[OF vs, of moves] obtain moves' where
      m: "collectMoves ai b lr lc cells moves = Inr (b, moves')"
         "set moves' = set moves \<union>
            {(i, j, w). (i, j) \<in> set cells \<and> Grid b i j = Empty \<and> easyWeight ai b lr lc i j = Inr (b, w)}"
      by blast
    show ?thesis
      unfolding c using False m by auto
  next
    case True
    from easyWeight_total[OF v True] obtain w where w: "easyWeight ai b lr lc i j = Inr (b, w)"
      by blast
    from Cons.IH[OF vs, of "moves @ [(i, j, w)]"] obtain moves' where
      m: "collectMoves ai b lr lc cells (moves @ [(i, j, w)]) = Inr (b, moves')"
         "set moves' = set (moves @ [(i, j, w)]) \<union>
            {(i, j, w). (i, j) \<in> set cells \<and> Grid b i j = Empty \<and> easyWeight ai b lr lc i j = Inr (b, w)}"
      by blast
    show ?thesis
      unfolding c using True w m by auto
  qed
qed

lemma totalWeightOf_acc: "totalWeightOf moves t = t + totalWeightOf moves 0"
proof (induction moves arbitrary: t)
  case Nil
  then show ?case by simp
next
  case (Cons m moves)
  show ?case
    using Cons.IH[of "t + weightOf m"] Cons.IH[of "weightOf m"] by simp
qed

lemma pickMove_in_range:
  "c \<le> r \<Longrightarrow> r < c + totalWeightOf moves 0 \<Longrightarrow> \<exists>cell. pickMove moves r c = Some cell \<and> cell \<in> cellOf ` set moves"
proof (induction moves arbitrary: c)
  case Nil
  then show ?case by simp
next
  case (Cons m moves)
  show ?case
  proof (cases "c + weightOf m > r")
    case True
    then show ?thesis by (simp add: Let_def)
  next
    case False
    then have le: "c + weightOf m \<le> r" by simp
    from Cons.prems have "r < (c + weightOf m) + totalWeightOf moves 0"
      using totalWeightOf_acc[of moves "weightOf m"] by simp
    from Cons.IH[OF le this] False show ?thesis by (auto simp: Let_def)
  qed
qed

lemma allCells_list: "allCells = concat (map (\<lambda>i. map (\<lambda>j. (i, j)) [0,1,2,3,4,5,6,7,8,9,10,11,12,13,14]) [0,1,2,3,4,5,6,7,8,9,10,11,12,13,14])"
  by (simp add: allCells_def cellsIn_def BoardSize_def upto_rec1)

lemma range_corner: "stoneRange (Grid cornerStone) allCells (BoardSize - 1, 0, BoardSize - 1, 0, False) = (0, 0, 0, 0, True)"
  by (simp add: allCells_list cornerStone_def setCell_def BoardSize_def)

lemma range_two: "stoneRange (Grid twoStones) allCells (BoardSize - 1, 0, BoardSize - 1, 0, False) = (4, 14, 4, 14, True)"
  by (simp add: allCells_list twoStones_def setCell_def BoardSize_def)

lemmas score_eval = evaluateDirection_def scoreOfScan_def
  sumDirections.simps scanWindow.simps scanCell_def nearbyStonesEasy.simps manhattan_def bindP_def
  getOpponent_def NewAI_def cellsIn_def winsWith_def CheckWin_def checkDirs.simps countLine.simps
  directions_def setCell_def isValidPosition_def BoardSize_def WinCondition_def upto_rec1 Let_def

lemma valid22: "isValidPosition 2 2"
  by (simp add: isValidPosition_def BoardSize_def)

lemma weight_corner: "easyWeight (NewAI White Easy) cornerStone 0 0 2 2 = Inr (cornerStone, 40)"
proof -
  have e: "Grid cornerStone 2 2 = Empty"
    by (simp add: cornerStone_def setCell_def)
  have v: "evaluatePosition (NewAI White Easy) cornerStone 2 2 = Inr (cornerStone, -70)"
    unfolding evaluatePosition_value[OF valid22 e]
    by (simp add: score_eval cornerStone_def)
  show ?thesis
    unfolding easyWeight_def v
    by (simp add: score_eval cornerStone_def)
qed

lemma weight_two: "easyWeight (NewAI Black Easy) twoStones 14 14 2 2 = Inr (twoStones, -30)"
proof -
  have e: "Grid twoStones 2 2 = Empty"
    by (simp add: twoStones_def setCell_def)
  have v: "evaluatePosition (NewAI Black Easy) twoStones 2 2 = Inr (twoStones, -160)"
    unfolding evaluatePosition_value[OF valid22 e]
    by (simp add: score_eval twoStones_def)
  show ?thesis
    unfolding easyWeight_def v
    by (simp add: score_eval twoStones_def)
qed

lemma one_corner: "atMostOne Black (Grid cornerStone)" "atMostOne White (Grid cornerStone)"
  by (auto simp: atMostOne_def cornerStone_def setCell_def split: if_splits)

lemma one_two: "atMostOne Black (Grid twoStones)" "atMostOne White (Grid twoStones)"
  by (auto simp: atMostOne_def twoStones_def setCell_def split: if_splits)

lemma prelude_few:
  assumes "atMostOne Black (Grid b)" and "atMostOne White (Grid b)"
    and "player ai = Black \<or> player ai = White"
  shows "easyPrelude ai b = easyCandidates ai b"
proof -
  have w1: "findWinningMove b (player ai) = Inr (b, (-1, -1))"
    and w2: "findWinningMove b (getOpponent ai) = Inr (b, (-1, -1))"
    and t: "findThreatsMove ai b = (-1, -1)"
    using assms
    by (auto simp: getOpponent_def intro!: few_stones_findWinningMove few_stones_findThreatsMove)
  show ?thesis
    by (simp add: easyPrelude_def bindP_def w1 w2 t)
qed

lemma prelude_corner:
  "easyPrelude (NewAI White Easy) cornerStone = Inr (cornerStone, Candidates [(2, 2, 40)])"
proof -
  have p: "player (NewAI White Easy) = Black \<or> player (NewAI White Easy) = White"
    by (simp add: NewAI_def)
  have g: "Grid cornerStone 2 2 = Empty" by (simp add: cornerStone_def setCell_def)
  show ?thesis
    unfolding prelude_few[OF one_corner p] easyCandidates_def range_corner
    by (simp add: BoardSize_def cellsIn_def weight_corner bindP_def g cornerStone_def[THEN arg_cong[where f = MoveHistory]])
qed

section \<open>The sampling step of the easy strategy\<close>

lemma collectMoves_cells:
  assumes "collectMoves ai b lr lc cells [] = Inr (b', moves)"
    and "\<forall>(i, j) \<in> set cells. isValidPosition i j"
  shows "\<forall>m \<in> set moves. cellOf m \<in> set cells \<and> Grid b (fst (cellOf m)) (snd (cellOf m)) = Empty"
proof -
  from collectMoves_result[OF assms(2), of ai b lr lc "[]"] assms(1)
  have "set moves = {(i, j, w). (i, j) \<in> set cells \<and> Grid b i j = Empty
                        \<and> easyWeight ai b lr lc i j = Inr (b, w)}"
    by auto
  then show ?thesis by (auto simp: cellOf_def)
qed

lemma easyCandidates_cells:
  assumes "easyCandidates ai b = Inr (b', Candidates moves)"
  shows "\<forall>m \<in> set moves. isValidPosition (fst (cellOf m)) (snd (cellOf m))
            \<and> Grid b (fst (cellOf m)) (snd (cellOf m)) = Empty"
proof -
  obtain minRow maxRow minCol maxCol hasStones where
    r: "stoneRange (Grid b) allCells (BoardSize - 1, 0, BoardSize - 1, 0, False)
          = (minRow, maxRow, minCol, maxCol, hasStones)"
    by (metis prod_cases5)
  define cells where "cells = cellsIn (max 2 (minRow - 2)) (min (BoardSize - 3) (maxRow + 2))
           (max 2 (minCol - 2)) (min (BoardSize - 3) (maxCol + 2))"
  from assms obtain lr lc where
    c: "collectMoves ai b lr lc cells [] = Inr (b', moves)"
    unfolding easyCandidates_def r cells_def
    by (auto simp: bindP_Inr Let_def split: if_splits)
  have v: "\<forall>(i, j) \<in> set cells. isValidPosition i j"
    by (auto simp: cells_def cellsIn_def isValidPosition_def BoardSize_def)
  from collectMoves_cells[OF c v] v show ?thesis
    by fastforce
qed

lemma easyPrelude_candidates:
  assumes "easyPrelude ai b = Inr (b', Candidates moves)"
  shows "b' = b \<and> easyCandidates ai b = Inr (b, Candidates moves)"
proof -
  from keeps_easyPrelude[of b ai] assms have b': "b' = b" by (simp add: keeps_def)
  from assms obtain b1 where "easyCandidates ai b1 = Inr (b', Candidates moves)"
    and "b1 = b"
    unfolding easyPrelude_def
    by (auto simp: bindP_Inr Let_def split: if_splits
        dest!: keeps_find(1)[unfolded keeps_def, rule_format])
  with b' show ?thesis by simp
qed

text \<open>
  The scan after the draw.  With a non-empty list of candidates and a strictly positive
  total weight, \<open>rand.Intn\<close> returns a value in the range, the cumulative scan stops at
  one of the candidates, and that candidate, an empty cell of the board, is the move
  returned.
\<close>

lemma positive_total_returns_candidate:
  assumes "easyPrelude ai b = Inr (b', Candidates moves)" and "moves \<noteq> []"
    and "0 < totalWeightOf moves 0"
  shows "\<exists>r cell. Intn rnd (totalWeightOf moves 0) = Inr r \<and> 0 \<le> r \<and> r < totalWeightOf moves 0
     \<and> pickMove moves r 0 = Some cell
     \<and> makeEasyMove ai b rnd = Inr (b, cell)
     \<and> cell \<in> cellOf ` set moves
     \<and> isValidPosition (fst cell) (snd cell) \<and> Grid b (fst cell) (snd cell) = Empty"
proof -
  from easyPrelude_candidates[OF assms(1)] have b': "b' = b"
    and c: "easyCandidates ai b = Inr (b, Candidates moves)" by simp_all
  define r where "r = rnd mod totalWeightOf moves 0"
  from assms(3) have r: "Intn rnd (totalWeightOf moves 0) = Inr r" "0 \<le> r" "r < totalWeightOf moves 0"
    by (simp_all add: Intn_def r_def)
  from pickMove_in_range[of 0 r moves] r obtain cell where
    p: "pickMove moves r 0 = Some cell" "cell \<in> cellOf ` set moves"
    by auto
  from easyCandidates_cells[OF c] p(2)
  have v: "isValidPosition (fst cell) (snd cell)" "Grid b (fst cell) (snd cell) = Empty"
    by auto
  have "makeEasyMove ai b rnd = Inr (b, cell)"
    using assms(1,2) r(1) p(1) b' by (simp add: makeEasyMove_def bindP_def Let_def)
  with r p v show ?thesis by blast
qed

lemma cornerStone_returns_candidate:
  "easyPrelude (NewAI White Easy) cornerStone = Inr (cornerStone, Candidates [(2, 2, 40)])
   \<and> [(2, 2, 40)] \<noteq> ([] :: (int \<times> int \<times> int) list)
   \<and> 0 < totalWeightOf [(2, 2, 40)] 0
   \<and> makeEasyMove (NewAI White Easy) cornerStone 1234 = Inr (cornerStone, (2, 2))"
proof -
  have h: "[(2, 2, 40)] \<noteq> ([] :: (int \<times> int \<times> int) list)"
    "0 < totalWeightOf [(2, 2, 40)] 0"
    by (simp_all add: weightOf_def)
  from positive_total_returns_candidate[OF prelude_corner h, of 1234]
  have "makeEasyMove (NewAI White Easy) cornerStone 1234 = Inr (cornerStone, (2, 2))"
    by (auto simp: cellOf_def)
  with prelude_corner h show ?thesis by simp
qed

text \<open>
  Claim C9.  At the sampling step every candidate's weight should be non-negative.
  After the moves (4, 4) and (14, 14) the easy strategy playing Black reaches the
  sampling step with a non-empty list of candidates, and the candidate (2, 2) has
  weight -30: its base score is -160, the weight of a cell without a neighbouring stone
  is halved, and -60 becomes -30.
\<close>

theorem easy_weight_negative:
  "playMoves NewBoard [(4, 4), (14, 14)] = Inr (twoStones, None)
   \<and> evaluatePosition (NewAI Black Easy) twoStones 2 2 = Inr (twoStones, -160)
   \<and> easyWeight (NewAI Black Easy) twoStones 14 14 2 2 = Inr (twoStones, -30)
   \<and> (\<exists>moves. easyPrelude (NewAI Black Easy) twoStones = Inr (twoStones, Candidates moves)
         \<and> moves \<noteq> [] \<and> (2, 2, -30) \<in> set moves \<and> weightOf (2, 2, -30) < 0)"
proof -
  have pm: "playMoves NewBoard [(4, 4), (14, 14)] = Inr (twoStones, None)"
    by (simp add: board_eval twoStones_def)
  have e: "Grid twoStones 2 2 = Empty"
    by (simp add: twoStones_def setCell_def)
  have ev: "evaluatePosition (NewAI Black Easy) twoStones 2 2 = Inr (twoStones, -160)"
    unfolding evaluatePosition_value[OF valid22 e]
    by (simp add: score_eval twoStones_def)
  have p: "player (NewAI Black Easy) = Black \<or> player (NewAI Black Easy) = White"
    by (simp add: NewAI_def)
  have v: "\<forall>(i, j) \<in> set (cellsIn 2 12 2 12). isValidPosition i j"
    by (auto simp: cellsIn_def isValidPosition_def BoardSize_def)
  from collectMoves_result[OF v, of "NewAI Black Easy" twoStones 14 14 "[]"] obtain moves where
    m: "collectMoves (NewAI Black Easy) twoStones 14 14 (cellsIn 2 12 2 12) [] = Inr (twoStones, moves)"
    and s: "set moves = set [] \<union> {(i, j, w). (i, j) \<in> set (cellsIn 2 12 2 12) \<and> Grid twoStones i j = Empty
         \<and> easyWeight (NewAI Black Easy) twoStones 14 14 i j = Inr (twoStones, w)}"
    by blast
  have "(2, 2) \<in> set (cellsIn 2 12 2 12)"
    by (simp add: cellsIn_def)
  with s e weight_two have mem: "(2, 2, -30) \<in> set moves" by simp
  have pre: "easyPrelude (NewAI Black Easy) twoStones = Inr (twoStones, Candidates moves)"
    unfolding prelude_few[OF one_two p] easyCandidates_def range_two
    by (simp add: BoardSize_def m bindP_def twoStones_def[THEN arg_cong[where f = MoveHistory]])
  have neg: "weightOf (2, 2, -30) < 0"
    by (simp add: weightOf_def)
  from mem have "moves \<noteq> []"
    by auto
  with pre mem neg
  have "\<exists>moves. easyPrelude (NewAI Black Easy) twoStones = Inr (twoStones, Candidates moves)
         \<and> moves \<noteq> [] \<and> (2, 2, -30) \<in> set moves \<and> weightOf (2, 2, -30) < 0"
    by blast
  with pm ev weight_two show ?thesis by simp
qed

end
